theory Spec2Isabelle
  imports Complex_Main "HOL-Library.Word"
begin

section \<open>JavaScript strings and the string built-ins the store calls\<close>

text \<open>
  A JavaScript string is a sequence of 16-bit UTF-16 code units; a surrogate may stand
  alone in it. String literals of the source are written \<open>js ''...''\<close>.
\<close>

type_synonym code_unit = "16 word"
type_synonym js_string = "code_unit list"

definition js :: "string \<Rightarrow> js_string" where
  "js s = map of_char s"

text \<open>
  Whatever a built-in throws or the storage client rejects with is an error object; the
  store reads three of its properties: \<open>name\<close>, \<open>message\<close> and
  \<open>$metadata.httpStatusCode\<close>, each of which may be missing.
\<close>

record js_error =
  name :: "js_string option"
  message :: "js_string option"
  httpStatusCode :: "int option"

definition URIError :: js_error where
  "URIError = \<lparr>name = Some (js ''URIError''), message = Some (js ''URI malformed''),
     httpStatusCode = None\<rparr>"

text \<open>
  \<open>s.replace(/pat/g, rep)\<close> for a pattern that is a literal, non-empty sequence of
  code units and a replacement without \<open>$\<close>: matches are found left to right and do
  not overlap. The source uses it with the patterns \<open>/\<close> and \<open>__SLASH__\<close> only.
\<close>

definition matches_at :: "js_string \<Rightarrow> js_string \<Rightarrow> bool" where
  "matches_at pat s \<longleftrightarrow> pat \<noteq> [] \<and> take (length pat) s = pat"

function replace_all :: "js_string \<Rightarrow> js_string \<Rightarrow> js_string \<Rightarrow> js_string" where
  "replace_all pat rep [] = []"
| "replace_all pat rep (c # s) =
     (if matches_at pat (c # s)
      then rep @ replace_all pat rep (drop (length pat) (c # s))
      else c # replace_all pat rep s)"
  by pat_completeness auto
termination
  by (relation "measure (\<lambda>(pat, rep, s). length s)") (auto simp: matches_at_def)

text \<open>
  \<open>s.replace(pat, rep)\<close> for a string pattern and a replacement without \<open>$\<close>: only
  the first occurrence is replaced; the empty pattern occurs at the start.
\<close>

fun replace_first :: "js_string \<Rightarrow> js_string \<Rightarrow> js_string \<Rightarrow> js_string" where
  "replace_first pat rep [] = (if pat = [] then rep else [])"
| "replace_first pat rep (c # s) =
     (if take (length pat) (c # s) = pat then rep @ drop (length pat) (c # s)
      else c # replace_first pat rep s)"

subsection \<open>encodeURIComponent\<close>

text \<open>
  ECMAScript's \<open>Encode(string, unescapedSet)\<close>: a code unit of the unescaped set is
  copied; any other code point is written as the percent-escapes of its UTF-8 octets; a
  surrogate without its partner throws a URIError. \<open>encodeURIComponent\<close> is
  \<open>Encode\<close> with the set \<open>uriUnescaped\<close>: letters, digits and \<open>- _ . ! ~ * ' ( )\<close>.
\<close>

definition uriUnescaped :: "code_unit \<Rightarrow> bool" where
  "uriUnescaped c \<longleftrightarrow>
     (0x41 \<le> c \<and> c \<le> 0x5A) \<or> (0x61 \<le> c \<and> c \<le> 0x7A) \<or> (0x30 \<le> c \<and> c \<le> 0x39) \<or>
     c \<in> {0x2D, 0x5F, 0x2E, 0x21, 0x7E, 0x2A, 0x27, 0x28, 0x29}"

definition is_leading_surrogate :: "code_unit \<Rightarrow> bool" where
  "is_leading_surrogate c \<longleftrightarrow> 0xD800 \<le> c \<and> c \<le> 0xDBFF"

definition is_trailing_surrogate :: "code_unit \<Rightarrow> bool" where
  "is_trailing_surrogate c \<longleftrightarrow> 0xDC00 \<le> c \<and> c \<le> 0xDFFF"

definition UTF16SurrogatePairToCodePoint :: "code_unit \<Rightarrow> code_unit \<Rightarrow> nat" where
  "UTF16SurrogatePairToCodePoint lead trail =
     (unat lead - 0xD800) * 0x400 + (unat trail - 0xDC00) + 0x10000"

definition utf8_octets :: "nat \<Rightarrow> nat list" where
  "utf8_octets cp =
     (if cp < 0x80 then [cp]
      else if cp < 0x800 then [0xC0 + cp div 0x40, 0x80 + cp mod 0x40]
      else if cp < 0x10000 then
        [0xE0 + cp div 0x1000, 0x80 + (cp div 0x40) mod 0x40, 0x80 + cp mod 0x40]
      else
        [0xF0 + cp div 0x40000, 0x80 + (cp div 0x1000) mod 0x40,
         0x80 + (cp div 0x40) mod 0x40, 0x80 + cp mod 0x40])"

definition hex_digit :: "nat \<Rightarrow> code_unit" where
  "hex_digit d = (if d < 10 then of_nat (0x30 + d) else of_nat (0x37 + d))"

definition percent_octet :: "nat \<Rightarrow> js_string" where
  "percent_octet b = [0x25, hex_digit (b div 16), hex_digit (b mod 16)]"

definition percent_escape :: "nat \<Rightarrow> js_string" where
  "percent_escape cp = concat (map percent_octet (utf8_octets cp))"

definition and_then :: "js_string \<Rightarrow> js_error + js_string \<Rightarrow> js_error + js_string" where
  "and_then s r = (case r of Inl e \<Rightarrow> Inl e | Inr t \<Rightarrow> Inr (s @ t))"

fun Encode :: "(code_unit \<Rightarrow> bool) \<Rightarrow> js_string \<Rightarrow> js_error + js_string" where
  "Encode U [] = Inr []"
| "Encode U (c # rest) =
     (if U c then and_then [c] (Encode U rest)
      else if is_leading_surrogate c then
        (case rest of
           [] \<Rightarrow> Inl URIError
         | d # rest' \<Rightarrow>
             if is_trailing_surrogate d
             then and_then (percent_escape (UTF16SurrogatePairToCodePoint c d)) (Encode U rest')
             else Inl URIError)
      else if is_trailing_surrogate c then Inl URIError
      else and_then (percent_escape (unat c)) (Encode U rest))"

definition encodeURIComponent :: "js_string \<Rightarrow> js_error + js_string" where
  "encodeURIComponent s = Encode uriUnescaped s"

subsection \<open>decodeURIComponent\<close>

text \<open>
  ECMAScript's \<open>Decode\<close> with an empty set of preserved escapes: a code unit other
  than \<open>%\<close> is copied; \<open>%XY\<close> is an octet; an octet below 0x80 is the code unit
  itself, an octet that opens a UTF-8 sequence of two to four octets is followed by the
  escapes of its continuation octets, and the code point they encode is written in
  UTF-16. A truncated or ill-formed escape, an octet that opens no sequence and a sequence
  that is not the UTF-8 encoding of a code point all throw a URIError.
\<close>

definition hex_value :: "code_unit \<Rightarrow> nat option" where
  "hex_value c =
     (if 0x30 \<le> c \<and> c \<le> 0x39 then Some (unat c - 0x30)
      else if 0x41 \<le> c \<and> c \<le> 0x46 then Some (unat c - 0x37)
      else if 0x61 \<le> c \<and> c \<le> 0x66 then Some (unat c - 0x57)
      else None)"

fun ParseHexOctet :: "js_string \<Rightarrow> (nat \<times> js_string) option" where
  "ParseHexOctet (p # h # l # rest) =
     (if p = 0x25 then
        (case hex_value h of
           None \<Rightarrow> None
         | Some a \<Rightarrow> (case hex_value l of None \<Rightarrow> None | Some b \<Rightarrow> Some (16 * a + b, rest)))
      else None)"
| "ParseHexOctet s = None"

fun continuation_octets :: "nat \<Rightarrow> js_string \<Rightarrow> (nat list \<times> js_string) option" where
  "continuation_octets 0 s = Some ([], s)"
| "continuation_octets (Suc j) s =
     (case ParseHexOctet s of
        None \<Rightarrow> None
      | Some (b, s') \<Rightarrow>
          (case continuation_octets j s' of
             None \<Rightarrow> None
           | Some (bs, s'') \<Rightarrow> Some (b # bs, s'')))"

definition is_continuation :: "nat \<Rightarrow> bool" where
  "is_continuation b \<longleftrightarrow> 0x80 \<le> b \<and> b < 0xC0"

fun utf8_code_point :: "nat list \<Rightarrow> nat option" where
  "utf8_code_point [b1, b2] =
     (let cp = (b1 - 0xC0) * 0x40 + (b2 - 0x80)
      in if is_continuation b2 \<and> 0x80 \<le> cp then Some cp else None)"
| "utf8_code_point [b1, b2, b3] =
     (let cp = (b1 - 0xE0) * 0x1000 + (b2 - 0x80) * 0x40 + (b3 - 0x80)
      in if is_continuation b2 \<and> is_continuation b3 \<and> 0x800 \<le> cp \<and>
            \<not> (0xD800 \<le> cp \<and> cp \<le> 0xDFFF)
         then Some cp else None)"
| "utf8_code_point [b1, b2, b3, b4] =
     (let cp = (b1 - 0xF0) * 0x40000 + (b2 - 0x80) * 0x1000 + (b3 - 0x80) * 0x40 + (b4 - 0x80)
      in if is_continuation b2 \<and> is_continuation b3 \<and> is_continuation b4 \<and>
            0x10000 \<le> cp \<and> cp \<le> 0x10FFFF
         then Some cp else None)"
| "utf8_code_point bs = None"

definition UTF16EncodeCodePoint :: "nat \<Rightarrow> js_string" where
  "UTF16EncodeCodePoint cp =
     (if cp \<le> 0xFFFF then [of_nat cp]
      else [of_nat ((cp - 0x10000) div 0x400 + 0xD800),
            of_nat ((cp - 0x10000) mod 0x400 + 0xDC00)])"

definition sequence_length :: "nat \<Rightarrow> nat option" where
  "sequence_length b =
     (if b < 0x80 then Some 1
      else if b < 0xC0 then None
      else if b < 0xE0 then Some 2
      else if b < 0xF0 then Some 3
      else if b < 0xF8 then Some 4
      else None)"

lemma ParseHexOctet_shorter: "ParseHexOctet s = Some (b, s') \<Longrightarrow> length s' < length s"
  by (induction s rule: ParseHexOctet.induct) (auto split: if_splits option.splits)

lemma continuation_octets_shorter:
  "continuation_octets j s = Some (bs, s') \<Longrightarrow> length s' \<le> length s"
proof (induction j arbitrary: s bs s')
  case 0
  then show ?case by simp
next
  case (Suc j)
  from Suc.prems obtain b s1 bs1 where p: "ParseHexOctet s = Some (b, s1)"
    and c: "continuation_octets j s1 = Some (bs1, s')"
    by (auto split: option.splits)
  from Suc.IH [OF c] ParseHexOctet_shorter [OF p] show ?case by simp
qed

function decodeURIComponent :: "js_string \<Rightarrow> js_error + js_string" where
  "decodeURIComponent [] = Inr []"
| "decodeURIComponent (c # rest) =
     (if c \<noteq> 0x25 then and_then [c] (decodeURIComponent rest)
      else
        (case ParseHexOctet (c # rest) of
           None \<Rightarrow> Inl URIError
         | Some (b, s1) \<Rightarrow>
             (case sequence_length b of
                None \<Rightarrow> Inl URIError
              | Some n \<Rightarrow>
                  if n = 1 then and_then [of_nat b] (decodeURIComponent s1)
                  else
                    (case continuation_octets (n - 1) s1 of
                       None \<Rightarrow> Inl URIError
                     | Some (bs, s2) \<Rightarrow>
                         (case utf8_code_point (b # bs) of
                            None \<Rightarrow> Inl URIError
                          | Some cp \<Rightarrow>
                              and_then (UTF16EncodeCodePoint cp) (decodeURIComponent s2))))))"
  by pat_completeness auto
termination
proof (relation "measure length", goal_cases)
  case 1
  show ?case by simp
next
  case (2 c rest)
  then show ?case by simp
next
  case (3 c rest x2 b s1 n)
  then show ?case using ParseHexOctet_shorter [of "c # rest" b s1] by simp
next
  case (4 c rest x2 b s1 n x2a bs s2 cp)
  then show ?case
    using ParseHexOctet_shorter [of "c # rest" b s1]
      continuation_octets_shorter [of "n - 1" s1 bs s2]
    by simp
qed


text \<open>
  The strings without an unpaired surrogate (\<open>String.prototype.isWellFormed\<close>): the
  strings that \<open>encodeURIComponent\<close> accepts.
\<close>

fun isWellFormed :: "js_string \<Rightarrow> bool" where
  "isWellFormed [] = True"
| "isWellFormed (c # rest) =
     (if is_leading_surrogate c then
        (case rest of [] \<Rightarrow> False | d # rest' \<Rightarrow> is_trailing_surrogate d \<and> isWellFormed rest')
      else \<not> is_trailing_surrogate c \<and> isWellFormed rest)"

subsection \<open>parseInt\<close>

text \<open>
  \<open>parseInt(string, 10)\<close>: leading white space is skipped, one sign is read, and the
  longest run of decimal digits that follows is the result; no digit gives NaN
  (\<open>None\<close>). The result is kept as an exact integer.
\<close>

definition StrWhiteSpaceChar :: "code_unit \<Rightarrow> bool" where
  "StrWhiteSpaceChar c \<longleftrightarrow>
     c \<in> {0x09, 0x0A, 0x0B, 0x0C, 0x0D, 0x20, 0xA0, 0x1680, 0x2028, 0x2029, 0x202F,
          0x205F, 0x3000, 0xFEFF} \<or> (0x2000 \<le> c \<and> c \<le> 0x200A)"

definition is_digit :: "code_unit \<Rightarrow> bool" where
  "is_digit c \<longleftrightarrow> 0x30 \<le> c \<and> c \<le> 0x39"

fun digits_value :: "nat \<Rightarrow> js_string \<Rightarrow> nat" where
  "digits_value acc [] = acc"
| "digits_value acc (c # s) = digits_value (10 * acc + (unat c - 0x30)) s"

definition parseInt :: "js_string \<Rightarrow> int option" where
  "parseInt string =
     (let S = dropWhile StrWhiteSpaceChar string;
          negative = (S \<noteq> [] \<and> hd S = 0x2D);
          S' = (if S \<noteq> [] \<and> (hd S = 0x2B \<or> hd S = 0x2D) then tl S else S);
          Z = takeWhile is_digit S'
      in if Z = [] then None
         else Some (if negative then - int (digits_value 0 Z) else int (digits_value 0 Z)))"

section \<open>Values, errors and configuration (src/types.ts)\<close>

text \<open>
  Numbers are IEEE doubles in the source. The model keeps NaN and the two infinities and
  takes the finite ones as reals, with exact arithmetic (a product or a sum is neither
  rounded nor turned into an infinity): the store compares a number with \<open>-1\<close> and
  \<open>0\<close> and computes \<open>now + ttl * 1000\<close>.
\<close>

datatype js_number = NaN | Finite real | PosInfinity | NegInfinity

fun strict_equals :: "js_number \<Rightarrow> js_number \<Rightarrow> bool" where
  "strict_equals (Finite a) (Finite b) = (a = b)"
| "strict_equals PosInfinity PosInfinity = True"
| "strict_equals NegInfinity NegInfinity = True"
| "strict_equals a b = False"

fun greater_than :: "js_number \<Rightarrow> js_number \<Rightarrow> bool" where
  "greater_than (Finite a) (Finite b) = (a > b)"
| "greater_than PosInfinity (Finite b) = True"
| "greater_than PosInfinity NegInfinity = True"
| "greater_than (Finite a) NegInfinity = True"
| "greater_than a b = False"

fun js_times :: "js_number \<Rightarrow> js_number \<Rightarrow> js_number" where
  "js_times (Finite a) (Finite b) = Finite (a * b)"
| "js_times NaN b = NaN"
| "js_times a NaN = NaN"
| "js_times (Finite a) b =
     (if a = 0 then NaN else if (a > 0) = (b = PosInfinity) then PosInfinity else NegInfinity)"
| "js_times a (Finite b) =
     (if b = 0 then NaN else if (b > 0) = (a = PosInfinity) then PosInfinity else NegInfinity)"
| "js_times a b = (if a = b then PosInfinity else NegInfinity)"

fun js_plus :: "js_number \<Rightarrow> js_number \<Rightarrow> js_number" where
  "js_plus (Finite a) (Finite b) = Finite (a + b)"
| "js_plus NaN b = NaN"
| "js_plus a NaN = NaN"
| "js_plus (Finite a) b = b"
| "js_plus a (Finite b) = a"
| "js_plus a b = (if a = b then a else NaN)"

text \<open>
  A value of unknown type, as far as the store tells values apart: \<open>undefined\<close>, a
  function, a number, or anything else (\<open>null\<close>, a string, a boolean, an object).
\<close>

datatype js_unknown = JsUndefined | JsFunction | JsNumber js_number | JsOther

text \<open>\<open>isValidTTL\<close>: \<open>typeof value === 'number' && (value === -1 || value > 0)\<close>.\<close>

fun isValidTTL :: "js_unknown \<Rightarrow> bool" where
  "isValidTTL (JsNumber n) = (strict_equals n (Finite (- 1)) \<or> greater_than n (Finite 0))"
| "isValidTTL v = False"

text \<open>\<open>isValidCacheKey\<close>, on a key that is a string: \<open>key.length > 0\<close>.\<close>

definition isValidCacheKey :: "js_string \<Rightarrow> bool" where
  "isValidCacheKey k \<longleftrightarrow> length k > 0"

text \<open>
  A cached value is \<open>null\<close> or any other defined value; \<open>undefined\<close> is
  \<open>None\<close> of \<open>'v js_value option\<close>. \<open>isDefined\<close> is
  \<open>value !== undefined && value !== null\<close>.
\<close>

datatype 'v js_value = Null | Value 'v

fun isDefined :: "'v js_value option \<Rightarrow> bool" where
  "isDefined None = False"
| "isDefined (Some Null) = False"
| "isDefined (Some (Value v)) = True"

text \<open>
  The error classes of \<open>types.ts\<close>, with the arguments of their constructors; a
  callback can also receive an error that a built-in threw and \<open>catch\<close> passed on as it is
  (\<open>Thrown\<close>).
\<close>

datatype store_error =
    ConfigurationError js_string "js_error option"
  | S3OperationError js_string "int option" "js_error option"
  | SerializationError js_string "js_error option"
  | TTLError js_string
  | Thrown js_error

text \<open>
  The fields of \<open>ProcessedS3StoreOptions\<close> that the operations read. The transport and
  credential settings only reach the storage client's constructor.
\<close>

record config =
  bucket :: js_string
  region :: js_string
  prefix :: js_string
  defaultTtl :: js_number
  storageClass :: "js_string option"
  serverSideEncryption :: "js_string option"

text \<open>
  Functions of the platform that the store calls and this development does not define:
  the \<open>sanitize-filename\<close> package, \<open>JSON.stringify\<close> (it throws, or returns a text or
  \<open>undefined\<close>), \<open>JSON.parse\<close> (it throws or returns a value) and
  \<open>Number.prototype.toString\<close>.
\<close>

record 'v platform =
  sanitize :: "js_string \<Rightarrow> js_string"
  JSON_stringify :: "'v js_value \<Rightarrow> js_error + js_string option"
  JSON_parse :: "js_string \<Rightarrow> js_error + 'v js_value"
  number_toString :: "js_number \<Rightarrow> js_string"

section \<open>The storage client\<close>

record PutObjectCommandInput =
  Bucket :: js_string
  Key :: js_string
  Body :: "js_string option"
  ContentType :: js_string
  Metadata :: "(js_string \<times> js_string) list"
  StorageClass :: "js_string option"
  ServerSideEncryption :: "js_string option"

text \<open>
  The commands the store sends. \<open>GetObjectCommand\<close> and \<open>DeleteObjectCommand\<close> carry
  Bucket and Key; \<open>DeleteObjectsCommand\<close> Bucket and the keys of \<open>Delete.Objects\<close>;
  \<open>ListObjectsV2Command\<close> Bucket, Prefix, MaxKeys and ContinuationToken;
  \<open>HeadBucketCommand\<close> Bucket.
\<close>

datatype command =
    GetObjectCommand js_string js_string
  | PutObjectCommand PutObjectCommandInput
  | DeleteObjectCommand js_string js_string
  | DeleteObjectsCommand js_string "js_string list"
  | ListObjectsV2Command js_string js_string "js_number option" "js_string option"
  | HeadBucketCommand js_string

text \<open>
  A response body is a readable stream or not. A stream emits \<open>error\<close>, or it emits
  \<open>end\<close>, and then the chunks convert to a text or the conversion throws.
\<close>

datatype stream_result = StreamError js_error | StreamEnd "js_error + js_string"

datatype body = NotReadable | Readable stream_result

text \<open>
  The fields of a response that the store reads (\<open>Metadata\<close>, \<open>Body\<close>,
  \<open>Contents\<close>, \<open>IsTruncated\<close>, \<open>NextContinuationToken\<close>; written with
  \<open>out_\<close> because the write request has fields of the same names). Each listed
  object has a key or none.
\<close>

record s3_output =
  out_Metadata :: "(js_string \<rightharpoonup> js_string) option"
  out_Body :: body
  out_Contents :: "js_string option list option"
  out_IsTruncated :: bool
  out_NextContinuationToken :: "js_string option"

text \<open>
  \<open>s3Client.send\<close>: the promise it returns is rejected with an error object or
  fulfilled with a response. The answer may depend on the command and on how many
  commands the operation has sent before it.
\<close>

type_synonym s3_client = "nat \<Rightarrow> command \<Rightarrow> js_error + s3_output"

text \<open>
  What an operation does, as seen from outside: the commands it sent, in order, and the
  invocations of its completion callback, in order, each with the error argument
  (\<open>None\<close> is \<open>null\<close>) and the result argument (\<open>None\<close> is \<open>undefined\<close>).
  The callback of \<open>clear\<close> is an argument of \<open>clear\<close> below and may throw; the
  callbacks of the other operations are taken to return.
\<close>

record 'r outcome =
  sent :: "command list"
  calls :: "(store_error option \<times> 'r option) list"

section \<open>The store (src/index.ts)\<close>

definition SLASH_PLACEHOLDER :: js_string where
  "SLASH_PLACEHOLDER = js ''__SLASH__''"

definition truthy :: "js_string option \<Rightarrow> bool" where
  "truthy s \<longleftrightarrow> (case s of None \<Rightarrow> False | Some t \<Rightarrow> t \<noteq> [])"

text \<open>
  \<open>formatKey\<close> throws a ConfigurationError for an empty key and lets the URIError of
  \<open>encodeURIComponent\<close> through.
\<close>

definition formatKey :: "config \<Rightarrow> 'v platform \<Rightarrow> js_string \<Rightarrow> store_error + js_string" where
  "formatKey cfg pf k =
     (if \<not> isValidCacheKey k
      then Inl (ConfigurationError (js ''Cache key must be a non-empty string'') None)
      else
        let keyWithPlaceholders = replace_all (js ''/'') SLASH_PLACEHOLDER k;
            sanitized = sanitize pf keyWithPlaceholders
        in case encodeURIComponent sanitized of
             Inl e \<Rightarrow> Inl (Thrown e)
           | Inr encoded \<Rightarrow>
               (case encodeURIComponent SLASH_PLACEHOLDER of
                  Inl e \<Rightarrow> Inl (Thrown e)
                | Inr pat \<Rightarrow>
                    let withSlashes = replace_all pat (js ''/'') encoded
                    in Inr (prefix cfg @ withSlashes)))"

text \<open>
  \<open>isExpired\<close>, with the value \<open>Date.now()\<close> returns as an argument: an integer
  number of milliseconds.
\<close>

definition isExpired :: "int \<Rightarrow> (js_string \<rightharpoonup> js_string) \<Rightarrow> bool" where
  "isExpired now metadata =
     (case metadata (js ''cache-ttl'') of
        None \<Rightarrow> False
      | Some ttl \<Rightarrow>
          if ttl = [] then False
          else
            (case parseInt ttl of
               None \<Rightarrow> False
             | Some expirationTime \<Rightarrow> now > expirationTime))"

text \<open>\<open>streamToString\<close>: what its callback receives.\<close>

fun streamToString :: "stream_result \<Rightarrow> store_error + js_string" where
  "streamToString (StreamError error) =
     Inl (S3OperationError (js ''Failed to read stream'') None (Some error))"
| "streamToString (StreamEnd (Inl error)) =
     Inl (S3OperationError (js ''Failed to convert stream to string'') None (Some error))"
| "streamToString (StreamEnd (Inr result)) = Inr result"

definition del :: "config \<Rightarrow> 'v platform \<Rightarrow> s3_client \<Rightarrow> js_string \<Rightarrow> unit outcome" where
  "del cfg pf client k =
     (case formatKey cfg pf k of
        Inl error \<Rightarrow> \<lparr>sent = [], calls = [(Some error, None)]\<rparr>
      | Inr s3Key \<Rightarrow>
          let command = DeleteObjectCommand (bucket cfg) s3Key
          in (case client 0 command of
                Inr result \<Rightarrow> \<lparr>sent = [command], calls = [(None, None)]\<rparr>
              | Inl error \<Rightarrow>
                  \<lparr>sent = [command],
                   calls = [(Some (S3OperationError (js ''Failed to delete cache entry'')
                                     (httpStatusCode error) (Some error)), None)]\<rparr>))"

text \<open>
  \<open>get\<close>. The clock is read when the response has arrived; the delete of an expired
  entry is the second command of the operation.
\<close>

definition get ::
  "config \<Rightarrow> 'v platform \<Rightarrow> s3_client \<Rightarrow> int \<Rightarrow> js_string \<Rightarrow> 'v js_value outcome" where
  "get cfg pf client now k =
     (case formatKey cfg pf k of
        Inl error \<Rightarrow> \<lparr>sent = [], calls = [(Some error, None)]\<rparr>
      | Inr s3Key \<Rightarrow>
          let command = GetObjectCommand (bucket cfg) s3Key
          in (case client 0 command of
                Inr result \<Rightarrow>
                  if (case out_Metadata result of
                        None \<Rightarrow> False
                      | Some metadata \<Rightarrow> isExpired now metadata)
                  then
                    let d = del cfg pf (\<lambda>n. client (Suc n)) k
                    in \<lparr>sent = command # sent d,
                        calls = map (\<lambda>c. (None, Some Null)) (calls d)\<rparr>
                  else
                    (case out_Body result of
                       Readable stream \<Rightarrow>
                         (case streamToString stream of
                            Inl error \<Rightarrow> \<lparr>sent = [command], calls = [(Some error, None)]\<rparr>
                          | Inr bodyText \<Rightarrow>
                              (case JSON_parse pf bodyText of
                                 Inr v \<Rightarrow> \<lparr>sent = [command], calls = [(None, Some v)]\<rparr>
                               | Inl parseError \<Rightarrow>
                                   \<lparr>sent = [command],
                                    calls = [(Some (SerializationError
                                                (js ''Failed to parse cached value'')
                                                (Some parseError)), None)]\<rparr>))
                     | NotReadable \<Rightarrow>
                         \<lparr>sent = [command],
                          calls = [(Some (S3OperationError
                                      (js ''Unexpected response body format'') None None),
                                    None)]\<rparr>)
              | Inl error \<Rightarrow>
                  if name error = Some (js ''NoSuchKey'') \<or> httpStatusCode error = Some 404
                  then \<lparr>sent = [command], calls = [(None, Some Null)]\<rparr>
                  else
                    \<lparr>sent = [command],
                     calls = [(Some (S3OperationError (js ''Failed to retrieve cache entry'')
                                       (httpStatusCode error) (Some error)), None)]\<rparr>))"


text \<open>
  \<open>set\<close>. The third argument is the TTL or, when it is a function, the callback;
  the value is \<open>None\<close> when it is \<open>undefined\<close>. The clock is read twice: for the
  expiry (\<open>now\<^sub>1\<close>) and for the creation stamp (\<open>now\<^sub>2\<close>). \<open>store_entry\<close> is
  the part of \<open>set\<close> after the TTL has been settled. Only a number is a valid TTL,
  so the last case of \<open>set_op\<close> is never reached.
\<close>

definition store_entry ::
  "config \<Rightarrow> 'v platform \<Rightarrow> s3_client \<Rightarrow> int \<Rightarrow> int \<Rightarrow> js_string \<Rightarrow> 'v js_value option \<Rightarrow>
   js_number \<Rightarrow> 'v js_value outcome" where
  "store_entry cfg pf client now\<^sub>1 now\<^sub>2 k v actualTtl =
     (case v of
        None \<Rightarrow>
          \<lparr>sent = [],
           calls = [(Some (SerializationError (js ''Value cannot be undefined'') None), None)]\<rparr>
      | Some val \<Rightarrow>
          (case formatKey cfg pf k of
             Inl error \<Rightarrow> \<lparr>sent = [], calls = [(Some error, None)]\<rparr>
           | Inr s3Key \<Rightarrow>
               let expireAt =
                     (if strict_equals actualTtl (Finite (- 1)) then Finite (- 1)
                      else js_plus (Finite (of_int now\<^sub>1)) (js_times actualTtl (Finite 1000)))
               in (case JSON_stringify pf val of
                     Inl serializeError \<Rightarrow>
                       \<lparr>sent = [],
                        calls = [(Some (SerializationError (js ''Failed to serialize value'')
                                          (Some serializeError)), None)]\<rparr>
                   | Inr serializedValue \<Rightarrow>
                       let metadata =
                             [(js ''cache-created'', Some (number_toString pf (Finite (of_int now\<^sub>2)))),
                              (js ''cache-version'', Some (js ''1.0''))] @
                             (if \<not> strict_equals expireAt (Finite (- 1))
                              then [(js ''cache-ttl'', Some (number_toString pf expireAt))]
                              else []);
                           s3Metadata =
                             concat (map (\<lambda>(key, entry). case entry of None \<Rightarrow> [] | Some x \<Rightarrow> [(key, x)])
                                       metadata);
                           params =
                             \<lparr>Bucket = bucket cfg, Key = s3Key, Body = serializedValue,
                              ContentType = js ''application/json'', Metadata = s3Metadata,
                              StorageClass =
                                (if truthy (storageClass cfg) then storageClass cfg else None),
                              ServerSideEncryption =
                                (if truthy (serverSideEncryption cfg)
                                 then serverSideEncryption cfg else None)\<rparr>;
                           command = PutObjectCommand params
                       in (case client 0 command of
                             Inr result \<Rightarrow> \<lparr>sent = [command], calls = [(None, Some val)]\<rparr>
                           | Inl error \<Rightarrow>
                               \<lparr>sent = [command],
                                calls = [(Some (S3OperationError (js ''Failed to store cache entry'')
                                                  (httpStatusCode error) (Some error)),
                                          None)]\<rparr>))))"

definition set_op ::
  "config \<Rightarrow> 'v platform \<Rightarrow> s3_client \<Rightarrow> int \<Rightarrow> int \<Rightarrow> js_string \<Rightarrow> 'v js_value option \<Rightarrow>
   js_unknown \<Rightarrow> 'v js_value outcome" where
  "set_op cfg pf client now\<^sub>1 now\<^sub>2 k v ttl =
     (if ttl = JsFunction then store_entry cfg pf client now\<^sub>1 now\<^sub>2 k v (defaultTtl cfg)
      else if ttl \<noteq> JsUndefined then
        (if \<not> isValidTTL ttl
         then \<lparr>sent = [],
               calls = [(Some (TTLError (js ''TTL must be a positive number or -1 for infinite'')),
                         None)]\<rparr>
         else
           (case ttl of
              JsNumber n \<Rightarrow> store_entry cfg pf client now\<^sub>1 now\<^sub>2 k v n
            | other \<Rightarrow> store_entry cfg pf client now\<^sub>1 now\<^sub>2 k v (defaultTtl cfg)))
      else store_entry cfg pf client now\<^sub>1 now\<^sub>2 k v (defaultTtl cfg))"





subsection \<open>clear\<close>

text \<open>
  The callback the caller gives to \<open>clear\<close>: invoked with the error argument, it
  returns (\<open>None\<close>) or throws an error object. What it does may depend on how many
  times it has been invoked before.
\<close>

type_synonym ClearCallback = "nat \<Rightarrow> store_error option \<Rightarrow> js_error option"

text \<open>
  \<open>listBatch\<close> asks for page after page until a page is not truncated or a request
  fails. It returns the commands sent and what the callback of \<open>listAllObjects\<close> is
  then invoked with: the error, from the handler of the rejected request, or the keys
  collected, from the handler of the last page. It returns nothing (\<open>None\<close>) when the
  pages never end.
\<close>

partial_function (option) listBatch ::
  "config \<Rightarrow> s3_client \<Rightarrow> command list \<Rightarrow> js_string list \<Rightarrow> js_string option \<Rightarrow>
   (command list \<times> (store_error + js_string list)) option" where
  "listBatch cfg client issued objects continuationToken =
     (case client (length issued)
             (ListObjectsV2Command (bucket cfg) (prefix cfg) None
                (if truthy continuationToken then continuationToken else None)) of
        Inl error \<Rightarrow>
          Some (issued @
                  [ListObjectsV2Command (bucket cfg) (prefix cfg) None
                     (if truthy continuationToken then continuationToken else None)],
                Inl (S3OperationError (js ''Failed to list objects'')
                       (httpStatusCode error) (Some error)))
      | Inr result \<Rightarrow>
          if out_IsTruncated result
          then listBatch cfg client
                 (issued @
                    [ListObjectsV2Command (bucket cfg) (prefix cfg) None
                       (if truthy continuationToken then continuationToken else None)])
                 (objects @
                    (case out_Contents result of
                       None \<Rightarrow> []
                     | Some contents \<Rightarrow>
                         filter (\<lambda>K. K \<noteq> [])
                           (map (\<lambda>obj. case obj of None \<Rightarrow> [] | Some K \<Rightarrow> K) contents)))
                 (out_NextContinuationToken result)
          else
            Some (issued @
                    [ListObjectsV2Command (bucket cfg) (prefix cfg) None
                       (if truthy continuationToken then continuationToken else None)],
                  Inr (objects @
                         (case out_Contents result of
                            None \<Rightarrow> []
                          | Some contents \<Rightarrow>
                              filter (\<lambda>K. K \<noteq> [])
                                (map (\<lambda>obj. case obj of None \<Rightarrow> [] | Some K \<Rightarrow> K) contents)))))"

text \<open>
  \<open>listAllObjects\<close>. Its callback works on the commands sent and the invocations of
  the caller's callback so far, and returns them with what it threw, if anything. The
  handler of the last page invokes it with the keys; what it throws there rejects the
  promise of that handler, so the \<open>.catch\<close> chained to it invokes it a second time,
  with an S3OperationError that wraps what was thrown. What it throws inside a
  \<open>.catch\<close> handler nothing catches.
\<close>

definition listAllObjects ::
  "config \<Rightarrow> s3_client \<Rightarrow>
   (unit outcome \<Rightarrow> store_error + js_string list \<Rightarrow> (unit outcome \<times> js_error option) option) \<Rightarrow>
   unit outcome option" where
  "listAllObjects cfg client callback =
     (case listBatch cfg client [] [] None of
        None \<Rightarrow> None
      | Some (listed, Inl error) \<Rightarrow>
          map_option fst (callback \<lparr>sent = listed, calls = []\<rparr> (Inl error))
      | Some (listed, Inr objects) \<Rightarrow>
          (case callback \<lparr>sent = listed, calls = []\<rparr> (Inr objects) of
             None \<Rightarrow> None
           | Some (st, None) \<Rightarrow> Some st
           | Some (st, Some thrown) \<Rightarrow>
               map_option fst
                 (callback st
                    (Inl (S3OperationError (js ''Failed to list objects'')
                            (httpStatusCode thrown) (Some thrown))))))"

text \<open>
  \<open>chunkArray\<close>: the loop \<open>for (i = 0; i < array.length; i += chunkSize)\<close>, which does
  not end when \<open>chunkSize\<close> is 0.
\<close>

partial_function (option) chunk_loop ::
  "'a list \<Rightarrow> nat \<Rightarrow> nat \<Rightarrow> 'a list list \<Rightarrow> 'a list list option" where
  "chunk_loop array chunkSize i chunks =
     (if i < length array
      then chunk_loop array chunkSize (i + chunkSize) (chunks @ [take chunkSize (drop i array)])
      else Some chunks)"

definition chunkArray :: "'a list \<Rightarrow> nat \<Rightarrow> 'a list list option" where
  "chunkArray array chunkSize = chunk_loop array chunkSize 0 []"

text \<open>
  The two handlers of a batch delete, on the shared variables \<open>completed\<close> and
  \<open>hasError\<close> and the invocations of the callback so far. \<open>batch_failed\<close> is the
  \<open>.catch\<close> handler: it runs for the error of a rejected delete and for what the
  \<open>.then\<close> handler threw, which is what the callback threw when it was told of the
  success.
\<close>

type_synonym clear_state = "nat \<times> bool \<times> (store_error option \<times> unit option) list"

fun batch_failed :: "js_error \<Rightarrow> clear_state \<Rightarrow> clear_state" where
  "batch_failed error (completed, hasError, reported) =
     (if hasError then (completed, hasError, reported)
      else (completed, True,
            reported @ [(Some (S3OperationError (js ''Failed to clear cache'')
                                 (httpStatusCode error) (Some error)), None)]))"

fun batch_settled ::
  "ClearCallback \<Rightarrow> nat \<Rightarrow> js_error + s3_output \<Rightarrow> clear_state \<Rightarrow> clear_state" where
  "batch_settled callback n (Inr result) (completed, hasError, reported) =
     (if hasError then (completed, hasError, reported)
      else if completed + 1 = n
      then (case callback (length reported) None of
              None \<Rightarrow> (completed + 1, hasError, reported @ [(None, None)])
            | Some thrown \<Rightarrow>
                batch_failed thrown (completed + 1, hasError, reported @ [(None, None)]))
      else (completed + 1, hasError, reported))"
| "batch_settled callback n (Inl error) st = batch_failed error st"

text \<open>
  \<open>batch_response\<close> is the answer to the delete of the \<open>i\<close>-th batch, sent after
  \<open>offset\<close> listing commands. \<open>order\<close> lists the batches (by position) in the order in
  which their deletes settle. An entry of \<open>order\<close> that names no batch settles nothing.
\<close>

definition batch_response ::
  "config \<Rightarrow> s3_client \<Rightarrow> nat \<Rightarrow> js_string list list \<Rightarrow> nat \<Rightarrow> js_error + s3_output" where
  "batch_response cfg client offset batches i =
     client (offset + i) (DeleteObjectsCommand (bucket cfg) (batches ! i))"

definition clear_settle ::
  "ClearCallback \<Rightarrow> nat \<Rightarrow> (nat \<Rightarrow> js_error + s3_output) \<Rightarrow> nat \<Rightarrow> clear_state \<Rightarrow>
   clear_state" where
  "clear_settle callback n response i st =
     (if i < n then batch_settled callback n (response i) st else st)"

text \<open>
  The callback \<open>clear\<close> passes to \<open>listAllObjects\<close>. With keys to delete it sends the
  batch deletes, one command per batch, before any of them settles, and throws nothing
  itself.
\<close>

definition clear_listed ::
  "config \<Rightarrow> s3_client \<Rightarrow> ClearCallback \<Rightarrow> nat list \<Rightarrow> unit outcome \<Rightarrow>
   store_error + js_string list \<Rightarrow> (unit outcome \<times> js_error option) option" where
  "clear_listed cfg client callback order st res =
     (case res of
        Inl error \<Rightarrow>
          Some (st\<lparr>calls := calls st @ [(Some error, None)]\<rparr>,
                callback (length (calls st)) (Some error))
      | Inr objects \<Rightarrow>
          if objects = []
          then Some (st\<lparr>calls := calls st @ [(None, None)]\<rparr>, callback (length (calls st)) None)
          else
            (case chunkArray objects 1000 of
               None \<Rightarrow> None
             | Some batches \<Rightarrow>
                 Some (\<lparr>sent = sent st @ map (DeleteObjectsCommand (bucket cfg)) batches,
                        calls = snd (snd (fold (clear_settle callback (length batches)
                                                  (batch_response cfg client (length (sent st))
                                                     batches))
                                            order (0, False, calls st)))\<rparr>,
                       None)))"

definition clear ::
  "config \<Rightarrow> s3_client \<Rightarrow> ClearCallback \<Rightarrow> nat list \<Rightarrow> unit outcome option" where
  "clear cfg client callback order =
     listAllObjects cfg client (clear_listed cfg client callback order)"

subsection \<open>scan\<close>

datatype cursor = CursorNumber nat | CursorToken js_string

record 'v ScanResult =
  cursor :: cursor
  entries :: "(js_string \<times> 'v) list"

text \<open>
  An optional argument of \<open>scan\<close>: \<open>undefined\<close>, a function (the callback), or a
  value of the argument's type. The third argument is a callback or \<open>undefined\<close>.
\<close>

datatype 'a arg = Missing | Callback | Given 'a

definition scan_arguments :: "js_string arg \<Rightarrow> js_number arg \<Rightarrow> bool \<Rightarrow> js_string \<times> js_number" where
  "scan_arguments pattern limit callback =
     (if pattern = Callback then ([], Finite 100)
      else if limit = Callback then ((case pattern of Given p \<Rightarrow> p | other \<Rightarrow> []), Finite 100)
      else if callback then
        ((case pattern of Given p \<Rightarrow> p | other \<Rightarrow> []),
         (case limit of Given l \<Rightarrow> l | other \<Rightarrow> Finite 100))
      else ([], Finite 100))"

definition scan_prefix :: "config \<Rightarrow> 'v platform \<Rightarrow> js_string \<Rightarrow> js_error + js_string" where
  "scan_prefix cfg pf actualPattern =
     (if actualPattern \<noteq> [] then
        let patternWithPlaceholders = replace_all (js ''/'') SLASH_PLACEHOLDER actualPattern;
            sanitized = sanitize pf patternWithPlaceholders
        in case encodeURIComponent sanitized of
             Inl e \<Rightarrow> Inl e
           | Inr encoded \<Rightarrow>
               (case encodeURIComponent SLASH_PLACEHOLDER of
                  Inl e \<Rightarrow> Inl e
                | Inr pat \<Rightarrow> Inr (prefix cfg @ replace_all pat (js ''/'') encoded))
      else Inr (prefix cfg))"

text \<open>
  An operation of \<open>scan\<close> also has the logical keys it passed to \<open>get\<close>, in order,
  and the error it threw at its caller, if any.
\<close>

record 'r scan_outcome = "'r outcome" +
  looked_up :: "js_string list"
  thrown :: "js_error option"

type_synonym 'v scan_calls = "(store_error option \<times> 'v ScanResult option) list"

text \<open>
  \<open>originalKey\<close>: the logical key of a listed storage key,
  \<open>decodeURIComponent(obj.Key.replace(this.config.prefix, ''))\<close>.
\<close>

definition originalKey :: "config \<Rightarrow> js_string \<Rightarrow> js_error + js_string" where
  "originalKey cfg K = decodeURIComponent (replace_first (prefix cfg) [] K)"

text \<open>
  The loop over the listed objects, which runs before any lookup completes, so that
  \<open>entries\<close> is still empty: an object without key is counted as processed; the key of
  any other is decoded and \<open>get\<close> is called for it. A URIError of the decoding ends the
  loop. The state is \<open>processed\<close>, the invocations of the callback and the keys
  looked up.
\<close>

fun scan_forEach ::
  "config \<Rightarrow> nat \<Rightarrow> cursor \<Rightarrow> js_string option list \<Rightarrow> nat \<times> 'v scan_calls \<times> js_string list \<Rightarrow>
   js_error option \<times> nat \<times> 'v scan_calls \<times> js_string list" where
  "scan_forEach cfg n cur [] st = (None, st)"
| "scan_forEach cfg n cur (obj # rest) (processed, reported, keys) =
     (if \<not> truthy obj then
        scan_forEach cfg n cur rest
          (processed + 1,
           (if processed + 1 = n then reported @ [(None, Some \<lparr>cursor = cur, entries = []\<rparr>)]
            else reported),
           keys)
      else
        (case originalKey cfg (case obj of Some K \<Rightarrow> K | None \<Rightarrow> []) of
           Inl e \<Rightarrow> (Some e, processed, reported, keys)
         | Inr k \<Rightarrow> scan_forEach cfg n cur rest (processed, reported, keys @ [k])))"

text \<open>
  The callback \<open>scan\<close> passes to \<open>get\<close> for the logical key \<open>k\<close>, on \<open>processed\<close>, the array
  \<open>entries\<close> (here \<open>found\<close>) and the invocations of the callback of \<open>scan\<close>.
\<close>

fun lookup_done ::
  "nat \<Rightarrow> cursor \<Rightarrow> js_string \<Rightarrow> store_error option \<times> 'v js_value option \<Rightarrow>
   nat \<times> (js_string \<times> 'v) list \<times> 'v scan_calls \<Rightarrow> nat \<times> (js_string \<times> 'v) list \<times> 'v scan_calls" where
  "lookup_done n cur k (error, data) (processed, found, reported) =
     (let found' =
            (if error = None \<and> data \<noteq> Some Null \<and> isDefined data
             then (case data of Some (Value v) \<Rightarrow> found @ [(k, v)] | other \<Rightarrow> found)
             else found)
      in (processed + 1, found',
          (if processed + 1 = n
           then reported @ [(None, Some \<lparr>cursor = cur, entries = found'\<rparr>)]
           else reported)))"

text \<open>
  \<open>scan\<close>. The lookups run concurrently: \<open>lookups j\<close> is the storage client and the
  clock that the lookup of the \<open>j\<close>-th key meets, and \<open>order\<close> lists the lookups (by
  position) in the order in which they complete. If no argument is a function, the
  callback is \<open>noop\<close>, and \<open>calls\<close> are its invocations.
\<close>

definition scan ::
  "config \<Rightarrow> 'v platform \<Rightarrow> s3_client \<Rightarrow> (nat \<Rightarrow> s3_client \<times> int) \<Rightarrow> nat list \<Rightarrow>
   js_string arg \<Rightarrow> js_number arg \<Rightarrow> bool \<Rightarrow> 'v ScanResult scan_outcome" where
  "scan cfg pf client lookups order pattern limit callback =
     (case scan_prefix cfg pf (fst (scan_arguments pattern limit callback)) of
        Inl e \<Rightarrow> \<lparr>sent = [], calls = [], looked_up = [], thrown = Some e\<rparr>
      | Inr listPrefix \<Rightarrow>
          let command = ListObjectsV2Command (bucket cfg) listPrefix
                          (Some (snd (scan_arguments pattern limit callback))) None
          in (case client 0 command of
                Inl error \<Rightarrow>
                  \<lparr>sent = [command],
                   calls = [(Some (S3OperationError (js ''Failed to scan cache entries'')
                                     (httpStatusCode error) (Some error)), None)],
                   looked_up = [], thrown = None\<rparr>
              | Inr result \<Rightarrow>
                  let objects = (case out_Contents result of None \<Rightarrow> [] | Some contents \<Rightarrow> contents)
                  in if objects = []
                     then \<lparr>sent = [command],
                           calls = [(None, Some \<lparr>cursor = CursorNumber 0, entries = []\<rparr>)],
                           looked_up = [], thrown = None\<rparr>
                     else
                       let cur = (if out_IsTruncated result
                                  then (case out_NextContinuationToken result of
                                          Some token \<Rightarrow> CursorToken token
                                        | None \<Rightarrow> CursorNumber 1)
                                  else CursorNumber 0);
                           (failure, processed, reported, keys) =
                             scan_forEach cfg (length objects) cur objects (0, [], []);
                           reported' =
                             (case failure of
                                None \<Rightarrow> reported
                              | Some e \<Rightarrow>
                                  reported @
                                  [(Some (S3OperationError (js ''Failed to scan cache entries'')
                                            (httpStatusCode e) (Some e)), None)]);
                           complete = (\<lambda>j st.
                              if j < length keys
                              then fold (lookup_done (length objects) cur (keys ! j))
                                     (calls (get cfg pf (fst (lookups j)) (snd (lookups j))
                                               (keys ! j))) st
                              else st)
                       in \<lparr>sent = [command],
                           calls = snd (snd (fold complete order (processed, [], reported'))),
                           looked_up = keys, thrown = None\<rparr>))"


section \<open>Concrete inputs for the examples\<close>

text \<open>
  A configuration, a platform and storage clients on which the theorems below are
  evaluated: cached values are \<open>null\<close> and one object, written \<open>{}\<close>; the
  sanitizer changes nothing (the keys used have no character it removes);
  \<open>example_toString\<close> writes whole numbers in decimal digits.
\<close>

definition example_config :: config where
  "example_config =
     \<lparr>bucket = js ''cache-bucket'', region = js ''us-east-1'', prefix = js ''app:'',
      defaultTtl = Finite 60, storageClass = None, serverSideEncryption = None\<rparr>"

fun decimal :: "nat \<Rightarrow> js_string" where
  "decimal n = (if n < 10 then [of_nat (0x30 + n)] else decimal (n div 10) @ [of_nat (0x30 + n mod 10)])"

declare decimal.simps [simp del]

definition example_toString :: "js_number \<Rightarrow> js_string" where
  "example_toString x =
     (case x of
        NaN \<Rightarrow> js ''NaN''
      | PosInfinity \<Rightarrow> js ''Infinity''
      | NegInfinity \<Rightarrow> js ''-Infinity''
      | Finite r \<Rightarrow> if r < 0 then js ''-'' @ decimal (nat \<lfloor>- r\<rfloor>) else decimal (nat \<lfloor>r\<rfloor>))"

definition example_stringify :: "unit js_value \<Rightarrow> js_error + js_string option" where
  "example_stringify v = (case v of Null \<Rightarrow> Inr (Some (js ''null'')) | Value u \<Rightarrow> Inr (Some (js ''{}'')))"

definition example_parse :: "js_string \<Rightarrow> js_error + unit js_value" where
  "example_parse s =
     (if s = js ''null'' then Inr Null
      else if s = js ''{}'' then Inr (Value ())
      else Inl \<lparr>name = Some (js ''SyntaxError''), message = None, httpStatusCode = None\<rparr>)"

definition unchanged :: "js_string \<Rightarrow> js_string" where
  "unchanged s = s"

definition example_platform :: "unit platform" where
  "example_platform =
     \<lparr>sanitize = unchanged, JSON_stringify = example_stringify, JSON_parse = example_parse,
      number_toString = example_toString\<rparr>"

definition empty_output :: s3_output where
  "empty_output =
     \<lparr>out_Metadata = None, out_Body = NotReadable, out_Contents = None,
      out_IsTruncated = False, out_NextContinuationToken = None\<rparr>"

definition accepting_client :: s3_client where
  "accepting_client n c = Inr empty_output"

definition rejecting_client :: "js_error \<Rightarrow> s3_client" where
  "rejecting_client e n c = Inl e"

definition NoSuchKey :: js_error where
  "NoSuchKey = \<lparr>name = Some (js ''NoSuchKey''),
     message = Some (js ''The specified key does not exist.''), httpStatusCode = Some 404\<rparr>"

definition AccessDenied :: js_error where
  "AccessDenied = \<lparr>name = Some (js ''AccessDenied''), message = Some (js ''Access Denied''),
     httpStatusCode = Some 403\<rparr>"

definition entry_client :: "(js_string \<times> js_string) list \<Rightarrow> js_string \<Rightarrow> s3_client" where
  "entry_client md text n c =
     (case c of
        GetObjectCommand b k \<Rightarrow>
          Inr \<lparr>out_Metadata = Some (map_of md), out_Body = Readable (StreamEnd (Inr text)),
               out_Contents = None, out_IsTruncated = False, out_NextContinuationToken = None\<rparr>
      | other \<Rightarrow> Inl AccessDenied)"


text \<open>
  A client that lists the given objects on one page, and the storage clients and clock of
  two lookups: the first finds an entry without expiry, the second is denied.
\<close>

definition listing_client :: "js_string option list \<Rightarrow> s3_client" where
  "listing_client objs n c =
     (case c of
        ListObjectsV2Command b p m t \<Rightarrow>
          Inr \<lparr>out_Metadata = None, out_Body = NotReadable, out_Contents = Some objs,
               out_IsTruncated = False, out_NextContinuationToken = None\<rparr>
      | other \<Rightarrow> Inl AccessDenied)"

definition example_lookups :: "nat \<Rightarrow> s3_client \<times> int" where
  "example_lookups j =
     (if j = 0 then (entry_client [] (js ''{}''), 2000) else (rejecting_client AccessDenied, 2000))"


definition truncated_client :: s3_client where
  "truncated_client n c =
     Inr \<lparr>out_Metadata = None, out_Body = NotReadable, out_Contents = None,
          out_IsTruncated = True, out_NextContinuationToken = None\<rparr>"


definition TypeError :: js_error where
  "TypeError = \<lparr>name = Some (js ''TypeError''), message = Some (js ''done is not a function''),
     httpStatusCode = None\<rparr>"

definition throwing_callback :: ClearCallback where
  "throwing_callback i error = (case error of None \<Rightarrow> Some TypeError | Some e \<Rightarrow> None)"

section \<open>Properties\<close>

subsection \<open>Evaluating the examples\<close>

lemma SLASH_PLACEHOLDER_units: "SLASH_PLACEHOLDER = [95, 95, 83, 76, 65, 83, 72, 95, 95]"
  by (simp add: SLASH_PLACEHOLDER_def js_def)

lemmas codec_defs = encodeURIComponent_def uriUnescaped_def is_leading_surrogate_def
  is_trailing_surrogate_def and_then_def percent_escape_def utf8_octets_def percent_octet_def
  hex_digit_def matches_at_def

lemmas decode_defs = originalKey_def hex_value_def sequence_length_def is_continuation_def
  UTF16EncodeCodePoint_def and_then_def

lemma formatKey_example:
  "formatKey example_config example_platform (js ''user/42'') = Inr (js ''app:user/42'')"
  by (simp add: formatKey_def isValidCacheKey_def example_config_def example_platform_def
      unchanged_def SLASH_PLACEHOLDER_units js_def codec_defs)

lemma formatKey_example_gone:
  "formatKey example_config example_platform (js ''gone'') = Inr (js ''app:gone'')"
  by (simp add: formatKey_def isValidCacheKey_def example_config_def example_platform_def
      unchanged_def SLASH_PLACEHOLDER_units js_def codec_defs)

lemma originalKey_examples:
  "originalKey example_config (js ''app:user/42'') = Inr (js ''user/42'')"
  "originalKey example_config (js ''app:gone'') = Inr (js ''gone'')"
  "originalKey example_config (js ''app:%'') = Inl URIError"
  by (simp_all add: example_config_def js_def decode_defs)

lemma parseInt_Nil: "parseInt [] = None"
  by (simp add: parseInt_def)

lemma parseInt_example: "parseInt (js ''1000'') = Some 1000"
  by (simp add: parseInt_def js_def StrWhiteSpaceChar_def is_digit_def)

subsection \<open>The key codec\<close>

subsubsection \<open>Hexadecimal octets\<close>

text \<open>
  The two hexadecimal digits of an octet are read back as the octet.
\<close>

lemma less_16_cases:
  "d < 16 \<Longrightarrow> d \<in> {0, 1, 2, 3, 4, 5, 6, 7, 8, 9, 10, 11, 12, 13, 14, 15::nat}"
  by simp arith

lemma hex_value_hex_digit: "d < 16 \<Longrightarrow> hex_value (hex_digit d) = Some d"
  by (drule less_16_cases, elim insertE emptyE) (simp_all add: hex_value_def hex_digit_def)

lemma hex_digit_range:
  "d < 16 \<Longrightarrow> hex_digit d \<noteq> 0x5F \<and> hex_digit d \<noteq> 0x2F \<and> hex_digit d \<noteq> 0x25"
  by (drule less_16_cases, elim insertE emptyE) (simp_all add: hex_digit_def)

lemma ParseHexOctet_percent_octet:
  "b < 256 \<Longrightarrow> ParseHexOctet (percent_octet b @ t) = Some (b, t)"
proof -
  assume "b < 256"
  then have "b div 16 < 16" "b mod 16 < 16" by auto
  then show ?thesis
    by (simp add: percent_octet_def hex_value_hex_digit)
qed

text \<open>
  \<open>decodeURIComponent\<close> on a text that begins with the escape of an octet.
\<close>

lemma decode_octet:
  assumes "b < 256"
  shows "decodeURIComponent (percent_octet b @ t) =
     (case sequence_length b of
        None \<Rightarrow> Inl URIError
      | Some n \<Rightarrow>
          if n = 1 then and_then [of_nat b] (decodeURIComponent t)
          else
            (case continuation_octets (n - 1) t of
               None \<Rightarrow> Inl URIError
             | Some (bs, s2) \<Rightarrow>
                 (case utf8_code_point (b # bs) of
                    None \<Rightarrow> Inl URIError
                  | Some cp \<Rightarrow> and_then (UTF16EncodeCodePoint cp) (decodeURIComponent s2))))"
proof -
  obtain h l where p: "percent_octet b = [0x25, h, l]"
    by (simp add: percent_octet_def)
  from ParseHexOctet_percent_octet [OF assms, of t]
  have "ParseHexOctet (0x25 # h # l # t) = Some (b, t)"
    by (simp add: p)
  then show ?thesis
    unfolding p by (simp del: ParseHexOctet.simps)
qed

lemma continuation_octets_1:
  "b < 256 \<Longrightarrow> continuation_octets (Suc 0) (percent_octet b @ t) = Some ([b], t)"
  by (simp add: ParseHexOctet_percent_octet)

lemma continuation_octets_2:
  "b < 256 \<Longrightarrow> c < 256 \<Longrightarrow>
   continuation_octets 2 (percent_octet b @ percent_octet c @ t) = Some ([b, c], t)"
  by (simp add: ParseHexOctet_percent_octet numeral_2_eq_2)

lemma continuation_octets_3:
  "b < 256 \<Longrightarrow> c < 256 \<Longrightarrow> d < 256 \<Longrightarrow>
   continuation_octets 3 (percent_octet b @ percent_octet c @ percent_octet d @ t) =
     Some ([b, c, d], t)"
  by (simp add: ParseHexOctet_percent_octet numeral_3_eq_3)

lemma split3: "(cp::nat) div 0x1000 * 0x1000 + (cp div 0x40) mod 0x40 * 0x40 + cp mod 0x40 = cp"
proof -
  define a where "a = cp div 0x40"
  define b where "b = a div 0x40"
  have 0: "cp div 0x1000 = b" by (simp add: a_def b_def div_mult2_eq [symmetric])
  have 1: "cp = a * 0x40 + cp mod 0x40" by (simp add: a_def)
  have 2: "a = b * 0x40 + a mod 0x40" by (simp add: b_def)
  show ?thesis unfolding 0 a_def [symmetric] using 1 2 by linarith
qed

lemma split4:
  "(cp::nat) div 0x40000 * 0x40000 + (cp div 0x1000) mod 0x40 * 0x1000 +
    (cp div 0x40) mod 0x40 * 0x40 + cp mod 0x40 = cp"
proof -
  define a where "a = cp div 0x40"
  define b where "b = a div 0x40"
  define c where "c = b div 0x40"
  have 0: "cp div 0x1000 = b" "cp div 0x40000 = c"
    by (simp_all add: a_def b_def c_def div_mult2_eq [symmetric])
  have 1: "cp = a * 0x40 + cp mod 0x40" by (simp add: a_def)
  have 2: "a = b * 0x40 + a mod 0x40" by (simp add: b_def)
  have 3: "b = c * 0x40 + b mod 0x40" by (simp add: c_def)
  show ?thesis unfolding 0 a_def [symmetric] using 1 2 3 by linarith
qed

text \<open>
  The escapes of a code point that is not a surrogate decode to the UTF-16 code units of
  the code point.
\<close>

lemma decode_percent_escape:
  assumes "cp \<le> 0x10FFFF" and "\<not> (0xD800 \<le> cp \<and> cp \<le> 0xDFFF)"
  shows "decodeURIComponent (percent_escape cp @ W) =
     and_then (UTF16EncodeCodePoint cp) (decodeURIComponent W)"
proof -
  consider "cp < 0x80" | "0x80 \<le> cp" "cp < 0x800" | "0x800 \<le> cp" "cp < 0x10000"
    | "0x10000 \<le> cp"
    by linarith
  then show ?thesis
  proof cases
    case 1
    then have "percent_escape cp = percent_octet cp" "cp < 256" "sequence_length cp = Some 1"
      "UTF16EncodeCodePoint cp = [of_nat cp]"
      by (simp_all add: percent_escape_def utf8_octets_def sequence_length_def
          UTF16EncodeCodePoint_def)
    then show ?thesis by (simp add: decode_octet)
  next
    case 2
    define b1 where "b1 = 0xC0 + cp div 0x40"
    define b2 where "b2 = 0x80 + cp mod 0x40"
    from 2 have e: "percent_escape cp = percent_octet b1 @ percent_octet b2"
      by (simp add: percent_escape_def utf8_octets_def b1_def b2_def)
    from 2 have r: "b1 < 256" "b2 < 256" "0xC0 \<le> b1" "b1 < 0xE0"
      by (simp_all add: b1_def b2_def)
    then have s: "sequence_length b1 = Some 2"
      by (simp add: sequence_length_def)
    have "(b1 - 0xC0) * 0x40 + (b2 - 0x80) = cp"
      by (simp add: b1_def b2_def)
    with 2 have u: "utf8_code_point [b1, b2] = Some cp"
      by (simp add: is_continuation_def b2_def)
    show ?thesis
      unfolding e using r s u
      by (simp add: decode_octet continuation_octets_1 ParseHexOctet_percent_octet
          del: utf8_code_point.simps)
  next
    case 3
    define b1 where "b1 = 0xE0 + cp div 0x1000"
    define b2 where "b2 = 0x80 + (cp div 0x40) mod 0x40"
    define b3 where "b3 = 0x80 + cp mod 0x40"
    from 3 have e: "percent_escape cp = percent_octet b1 @ percent_octet b2 @ percent_octet b3"
      by (simp add: percent_escape_def utf8_octets_def b1_def b2_def b3_def)
    from 3 have r: "b1 < 256" "b2 < 256" "b3 < 256" "0xE0 \<le> b1" "b1 < 0xF0"
      by (simp_all add: b1_def b2_def b3_def)
    then have s: "sequence_length b1 = Some 3"
      by (simp add: sequence_length_def)
    have "(b1 - 0xE0) * 0x1000 + (b2 - 0x80) * 0x40 + (b3 - 0x80) = cp"
      by (simp add: b1_def b2_def b3_def split3)
    with 3 assms(2) have u: "utf8_code_point [b1, b2, b3] = Some cp"
      by (simp add: is_continuation_def b2_def b3_def)
    show ?thesis
      unfolding e using r s u
      by (simp add: decode_octet continuation_octets_2 ParseHexOctet_percent_octet
          del: utf8_code_point.simps)
  next
    case 4
    define b1 where "b1 = 0xF0 + cp div 0x40000"
    define b2 where "b2 = 0x80 + (cp div 0x1000) mod 0x40"
    define b3 where "b3 = 0x80 + (cp div 0x40) mod 0x40"
    define b4 where "b4 = 0x80 + cp mod 0x40"
    from 4 have e: "percent_escape cp =
        percent_octet b1 @ percent_octet b2 @ percent_octet b3 @ percent_octet b4"
      by (simp add: percent_escape_def utf8_octets_def b1_def b2_def b3_def b4_def)
    from 4 assms(1) have r: "b1 < 256" "b2 < 256" "b3 < 256" "b4 < 256" "0xF0 \<le> b1" "b1 < 0xF8"
      by (simp_all add: b1_def b2_def b3_def b4_def)
    then have s: "sequence_length b1 = Some 4"
      by (simp add: sequence_length_def)
    have "(b1 - 0xF0) * 0x40000 + (b2 - 0x80) * 0x1000 + (b3 - 0x80) * 0x40 + (b4 - 0x80) = cp"
      by (simp add: b1_def b2_def b3_def b4_def split4)
    with 4 assms(1) have u: "utf8_code_point [b1, b2, b3, b4] = Some cp"
      by (simp add: is_continuation_def b2_def b3_def b4_def)
    show ?thesis
      unfolding e using r s u
      by (simp add: decode_octet continuation_octets_3 ParseHexOctet_percent_octet
          del: utf8_code_point.simps)
  qed
qed

subsubsection \<open>Code points and code units\<close>

lemma UTF16EncodeCodePoint_unit: "UTF16EncodeCodePoint (unat c) = [c]" for c :: code_unit
proof -
  have "unat c < 2 ^ 16" using unsigned_less [of c, where 'a = nat] by simp
  then show ?thesis by (simp add: UTF16EncodeCodePoint_def)
qed

lemma surrogate_unat:
  "is_leading_surrogate c \<longleftrightarrow> 0xD800 \<le> unat c \<and> unat c \<le> 0xDBFF"
  "is_trailing_surrogate c \<longleftrightarrow> 0xDC00 \<le> unat c \<and> unat c \<le> 0xDFFF"
  by (simp_all add: is_leading_surrogate_def is_trailing_surrogate_def word_le_nat_alt)

lemma pair_range:
  assumes "is_leading_surrogate c" and "is_trailing_surrogate d"
  shows "0x10000 \<le> UTF16SurrogatePairToCodePoint c d"
    and "UTF16SurrogatePairToCodePoint c d \<le> 0x10FFFF"
  using assms by (auto simp: surrogate_unat UTF16SurrogatePairToCodePoint_def)

lemma UTF16EncodeCodePoint_pair:
  assumes "is_leading_surrogate c" and "is_trailing_surrogate d"
  shows "UTF16EncodeCodePoint (UTF16SurrogatePairToCodePoint c d) = [c, d]"
proof -
  define a where "a = unat c - 0xD800"
  define b where "b = unat d - 0xDC00"
  from assms have ab: "unat c = a + 0xD800" "unat d = b + 0xDC00" "b < 0x400"
    by (auto simp: surrogate_unat a_def b_def)
  have cp: "UTF16SurrogatePairToCodePoint c d = a * 0x400 + b + 0x10000"
    by (simp add: UTF16SurrogatePairToCodePoint_def a_def b_def)
  have "(a * 0x400 + b) div 0x400 = a" "(a * 0x400 + b) mod 0x400 = b"
    using ab(3) by simp_all
  then have "UTF16EncodeCodePoint (UTF16SurrogatePairToCodePoint c d) =
      [of_nat (unat c), of_nat (unat d)]"
    unfolding cp ab(1,2) by (simp add: UTF16EncodeCodePoint_def)
  then show ?thesis by simp
qed

subsubsection \<open>The code units of an escape\<close>

lemma utf8_octets_range:
  assumes "cp \<le> 0x10FFFF" and "b \<in> set (utf8_octets cp)"
  shows "b < 256"
proof -
  have m: "x mod 0x40 < 0x40" for x :: nat by simp
  consider "cp < 0x80" | "0x80 \<le> cp" "cp < 0x800" | "0x800 \<le> cp" "cp < 0x10000"
    | "0x10000 \<le> cp"
    by linarith
  then show ?thesis
  proof cases
    case 1
    with assms(2) show ?thesis by (simp add: utf8_octets_def)
  next
    case 2
    then have "cp div 0x40 < 32" by simp
    with 2 assms(2) m [of cp] show ?thesis
      by (simp add: utf8_octets_def) linarith
  next
    case 3
    then have "cp div 0x1000 < 16" by simp
    with 3 assms(2) m [of cp] m [of "cp div 0x40"] show ?thesis
      by (simp add: utf8_octets_def) linarith
  next
    case 4
    from assms(1) have "cp div 0x40000 < 8" by simp
    with 4 assms(2) m [of cp] m [of "cp div 0x40"] m [of "cp div 0x1000"] show ?thesis
      by (simp add: utf8_octets_def) linarith
  qed
qed

lemma percent_octet_units:
  assumes "b < 256" and "x \<in> set (percent_octet b)"
  shows "x \<noteq> 0x5F \<and> x \<noteq> 0x2F"
proof -
  from assms(1) have "b div 16 < 16" "b mod 16 < 16" by auto
  from hex_digit_range [OF this(1)] hex_digit_range [OF this(2)] assms(2)
  show ?thesis by (auto simp: percent_octet_def)
qed

lemma percent_escape_units:
  assumes "cp \<le> 0x10FFFF" and "x \<in> set (percent_escape cp)"
  shows "x \<noteq> 0x5F \<and> x \<noteq> 0x2F"
  using assms utf8_octets_range percent_octet_units
  by (fastforce simp: percent_escape_def)

lemma percent_escape_Cons: "\<exists>t. percent_escape cp = 0x25 # t"
  by (simp add: percent_escape_def utf8_octets_def percent_octet_def)

lemma unit_range: "unat c \<le> 0x10FFFF" for c :: code_unit
  using unsigned_less [of c, where 'a = nat] by simp

lemma uriUnescaped_ascii:
  "uriUnescaped c \<Longrightarrow> c \<noteq> 0x25 \<and> c \<noteq> 0x2F \<and> \<not> is_leading_surrogate c \<and> \<not> is_trailing_surrogate c"
  by (auto simp: uriUnescaped_def is_leading_surrogate_def is_trailing_surrogate_def
      word_le_nat_alt)

subsubsection \<open>Replacing the separators and the placeholder\<close>

lemma separator_units: "js ''/'' = [0x2F]" "js ''__SLASH'' = [95, 95, 83, 76, 65, 83, 72]"
  by (simp_all add: js_def)

lemma substitute_simps:
  "replace_all [0x2F] SLASH_PLACEHOLDER [] = []"
  "replace_all [0x2F] SLASH_PLACEHOLDER (0x2F # k) =
     SLASH_PLACEHOLDER @ replace_all [0x2F] SLASH_PLACEHOLDER k"
  "c \<noteq> 0x2F \<Longrightarrow> replace_all [0x2F] SLASH_PLACEHOLDER (c # k) =
     c # replace_all [0x2F] SLASH_PLACEHOLDER k"
  by (simp_all add: matches_at_def)

lemma restore_placeholder:
  "replace_all SLASH_PLACEHOLDER r (SLASH_PLACEHOLDER @ E) = r @ replace_all SLASH_PLACEHOLDER r E"
  by (simp add: SLASH_PLACEHOLDER_units matches_at_def)

text \<open>
  Restoring the separators copies a code unit at which no placeholder starts, and so
  every code unit of an escape.
\<close>

lemma restore_other:
  "\<not> (\<exists>t. c # E = SLASH_PLACEHOLDER @ t) \<Longrightarrow>
   replace_all SLASH_PLACEHOLDER r (c # E) = c # replace_all SLASH_PLACEHOLDER r E"
proof -
  assume n: "\<not> (\<exists>t. c # E = SLASH_PLACEHOLDER @ t)"
  have "\<not> matches_at SLASH_PLACEHOLDER (c # E)"
  proof
    assume "matches_at SLASH_PLACEHOLDER (c # E)"
    then have "take (length SLASH_PLACEHOLDER) (c # E) = SLASH_PLACEHOLDER"
      by (simp add: matches_at_def)
    then have "c # E = SLASH_PLACEHOLDER @ drop (length SLASH_PLACEHOLDER) (c # E)"
      by (metis append_take_drop_id)
    with n show False by blast
  qed
  then show ?thesis by simp
qed

lemma restore_no_underscore:
  "(\<And>x. x \<in> set u \<Longrightarrow> x \<noteq> 0x5F) \<Longrightarrow>
   replace_all SLASH_PLACEHOLDER r (u @ E) = u @ replace_all SLASH_PLACEHOLDER r E"
proof (induction u)
  case Nil
  show ?case by simp
next
  case (Cons x u)
  from Cons.prems [of x] have "x \<noteq> 0x5F" by simp
  then have "\<not> (\<exists>t. x # (u @ E) = SLASH_PLACEHOLDER @ t)"
    by (auto simp: SLASH_PLACEHOLDER_units)
  from restore_other [OF this] Cons show ?case by simp
qed

text \<open>
  If the key with placeholders starts with a placeholder that no \<open>/\<close> of the key
  produced, the key starts with \<open>__SLASH\<close>.
\<close>

lemma substitute_head:
  assumes "replace_all [0x2F] SLASH_PLACEHOLDER k = x # t" and "x \<noteq> 0x5F"
  shows "\<exists>k'. k = x # k' \<and> replace_all [0x2F] SLASH_PLACEHOLDER k' = t"
proof (cases k)
  case Nil
  with assms show ?thesis by simp
next
  case (Cons c k')
  with assms show ?thesis
    by (cases "c = 0x2F") (auto simp: matches_at_def SLASH_PLACEHOLDER_units)
qed

lemma substitute_underscore:
  assumes "replace_all [0x2F] SLASH_PLACEHOLDER k = 0x5F # y # t" and "y \<noteq> 0x5F"
  shows "\<exists>k'. k = 0x5F # k' \<and> replace_all [0x2F] SLASH_PLACEHOLDER k' = y # t"
proof (cases k)
  case Nil
  with assms show ?thesis by simp
next
  case (Cons c k')
  with assms show ?thesis
    by (cases "c = 0x2F") (auto simp: matches_at_def SLASH_PLACEHOLDER_units)
qed

lemma placeholder_from_stem:
  assumes "c \<noteq> 0x2F" and "c # replace_all [0x2F] SLASH_PLACEHOLDER k = SLASH_PLACEHOLDER @ t"
  shows "\<exists>v. c # k = js ''__SLASH'' @ v"
proof -
  from assms(2) have c: "c = 0x5F"
    and 1: "replace_all [0x2F] SLASH_PLACEHOLDER k = 0x5F # 0x53 # [0x4C, 0x41, 0x53, 0x48, 0x5F, 0x5F] @ t"
    by (simp_all add: SLASH_PLACEHOLDER_units)
  from substitute_underscore [OF 1] obtain k1 where k1: "k = 0x5F # k1"
    and 2: "replace_all [0x2F] SLASH_PLACEHOLDER k1 = 0x53 # [0x4C, 0x41, 0x53, 0x48, 0x5F, 0x5F] @ t"
    by auto
  from substitute_head [OF 2] obtain k2 where k2: "k1 = 0x53 # k2"
    and 3: "replace_all [0x2F] SLASH_PLACEHOLDER k2 = 0x4C # [0x41, 0x53, 0x48, 0x5F, 0x5F] @ t"
    by auto
  from substitute_head [OF 3] obtain k3 where k3: "k2 = 0x4C # k3"
    and 4: "replace_all [0x2F] SLASH_PLACEHOLDER k3 = 0x41 # [0x53, 0x48, 0x5F, 0x5F] @ t"
    by auto
  from substitute_head [OF 4] obtain k4 where k4: "k3 = 0x41 # k4"
    and 5: "replace_all [0x2F] SLASH_PLACEHOLDER k4 = 0x53 # [0x48, 0x5F, 0x5F] @ t"
    by auto
  from substitute_head [OF 5] obtain k5 where k5: "k4 = 0x53 # k5"
    and 6: "replace_all [0x2F] SLASH_PLACEHOLDER k5 = 0x48 # [0x5F, 0x5F] @ t"
    by auto
  from substitute_head [OF 6] obtain k6 where k6: "k5 = 0x48 # k6"
    by auto
  show ?thesis
    unfolding c k1 k2 k3 k4 k5 k6 by (simp add: separator_units)
qed

subsubsection \<open>Encoding the substituted key\<close>

lemma Encode_placeholder:
  "Encode uriUnescaped (SLASH_PLACEHOLDER @ s) = and_then SLASH_PLACEHOLDER (Encode uriUnescaped s)"
  by (simp add: SLASH_PLACEHOLDER_units uriUnescaped_def and_then_def split: sum.splits)

lemma encodeURIComponent_placeholder:
  "encodeURIComponent SLASH_PLACEHOLDER = Inr SLASH_PLACEHOLDER"
  using Encode_placeholder [of "[]"] by (simp add: encodeURIComponent_def and_then_def)

lemma Encode_Cons_cases:
  assumes "Encode U (c # s) = Inr E"
  obtains (unescaped) E' where "U c" "Encode U s = Inr E'" "E = c # E'"
  | (pair) d s' E' where "\<not> U c" "is_leading_surrogate c" "s = d # s'" "is_trailing_surrogate d"
      "Encode U s' = Inr E'" "E = percent_escape (UTF16SurrogatePairToCodePoint c d) @ E'"
  | (single) E' where "\<not> U c" "\<not> is_leading_surrogate c" "\<not> is_trailing_surrogate c"
      "Encode U s = Inr E'" "E = percent_escape (unat c) @ E'"
  using assms
  by (auto simp: and_then_def split: if_splits sum.splits list.splits)

text \<open>
  An encoded text starts with given unescaped code units only if the text that was encoded
  starts with them.
\<close>

lemma Encode_starts_with:
  assumes "Encode uriUnescaped s = Inr E" and "\<And>x. x \<in> set w \<Longrightarrow> uriUnescaped x"
    and "E = w @ t"
  shows "\<exists>t'. s = w @ t'"
  using assms
proof (induction w arbitrary: s E)
  case Nil
  show ?case by simp
next
  case (Cons x w)
  from Cons.prems(2) [of x] have x: "uriUnescaped x" by simp
  show ?case
  proof (cases s)
    assume "s = []"
    with Cons.prems show ?thesis by simp
  next
    fix c s' assume s: "s = c # s'"
    from Cons.prems(1) [unfolded s] show ?thesis
    proof (cases rule: Encode_Cons_cases)
      case (unescaped E')
      with Cons.prems(3) have "c = x" "E' = w @ t" by simp_all
      with Cons.IH [OF unescaped(2) _ this(2)] Cons.prems(2) s show ?thesis by auto
    next
      case (pair d s'' E')
      with percent_escape_Cons [of "UTF16SurrogatePairToCodePoint c d"] Cons.prems(3)
      have "x = 0x25" by auto
      with x uriUnescaped_ascii show ?thesis by blast
    next
      case (single E')
      with percent_escape_Cons [of "unat c"] Cons.prems(3)
      have "x = 0x25" by auto
      with x uriUnescaped_ascii show ?thesis by blast
    qed
  qed
qed

lemma placeholder_unescaped: "x \<in> set SLASH_PLACEHOLDER \<Longrightarrow> uriUnescaped x"
  by (auto simp: SLASH_PLACEHOLDER_units uriUnescaped_def)

lemma no_stem_tail:
  assumes "\<not> (\<exists>u v. c # k = u @ js ''__SLASH'' @ v)"
  shows "\<not> (\<exists>u v. k = u @ js ''__SLASH'' @ v)" and "\<not> (\<exists>v. c # k = js ''__SLASH'' @ v)"
proof -
  show "\<not> (\<exists>u v. k = u @ js ''__SLASH'' @ v)"
  proof
    assume "\<exists>u v. k = u @ js ''__SLASH'' @ v"
    then obtain u v where "k = u @ js ''__SLASH'' @ v" by blast
    then have "c # k = (c # u) @ js ''__SLASH'' @ v" by simp
    with assms show False by blast
  qed
  show "\<not> (\<exists>v. c # k = js ''__SLASH'' @ v)"
  proof
    assume "\<exists>v. c # k = js ''__SLASH'' @ v"
    then obtain v where "c # k = [] @ js ''__SLASH'' @ v" by auto
    with assms show False by blast
  qed
qed

text \<open>
  Encoding the key with placeholders and restoring the separators amounts to encoding the
  key with every \<open>/\<close> left as it is.
\<close>

lemma encode_substituted:
  assumes "isWellFormed k" and "\<not> (\<exists>u v. k = u @ js ''__SLASH'' @ v)"
  shows "\<exists>E W. Encode uriUnescaped (replace_all [0x2F] SLASH_PLACEHOLDER k) = Inr E \<and>
               Encode (\<lambda>c. uriUnescaped c \<or> c = 0x2F) k = Inr W \<and>
               replace_all SLASH_PLACEHOLDER [0x2F] E = W"
  using assms
proof (induction k rule: isWellFormed.induct)
  case 1
  show ?case by simp
next
  case (2 c rest)
  note stem = no_stem_tail [OF "2.prems"(2)]
  show ?case
  proof (cases "is_leading_surrogate c")
    case True
    with "2.prems"(1) obtain d rest' where rest: "rest = d # rest'"
      and d: "is_trailing_surrogate d" and wf: "isWellFormed rest'"
      by (auto split: list.splits)
    from stem(1) have "\<not> (\<exists>u v. rest' = u @ js ''__SLASH'' @ v)"
      unfolding rest by (rule no_stem_tail)
    from "2.IH"(1) [OF True rest wf this] obtain E W
      where E: "Encode uriUnescaped (replace_all [0x2F] SLASH_PLACEHOLDER rest') = Inr E"
        and W: "Encode (\<lambda>c. uriUnescaped c \<or> c = 0x2F) rest' = Inr W"
        and EW: "replace_all SLASH_PLACEHOLDER [0x2F] E = W"
      by blast
    from True d have ne: "c \<noteq> 0x2F" "d \<noteq> 0x2F" "\<not> uriUnescaped c"
      using uriUnescaped_ascii [of c]
      by (auto simp: is_leading_surrogate_def is_trailing_surrogate_def)
    let ?esc = "percent_escape (UTF16SurrogatePairToCodePoint c d)"
    have "\<And>x. x \<in> set ?esc \<Longrightarrow> x \<noteq> 0x5F"
      using percent_escape_units [OF pair_range(2) [OF True d]] by blast
    from restore_no_underscore [OF this]
    have "replace_all SLASH_PLACEHOLDER [0x2F] (?esc @ E) = ?esc @ W"
      using EW by simp
    moreover have "Encode uriUnescaped (replace_all [0x2F] SLASH_PLACEHOLDER (c # rest)) =
        Inr (?esc @ E)"
      using True d ne E by (simp add: rest substitute_simps and_then_def del: replace_all.simps)
    moreover have "Encode (\<lambda>c. uriUnescaped c \<or> c = 0x2F) (c # rest) = Inr (?esc @ W)"
      using True d ne W by (simp add: rest and_then_def)
    ultimately show ?thesis by simp
  next
    case False
    with "2.prems"(1) have t: "\<not> is_trailing_surrogate c" and wf: "isWellFormed rest"
      by auto
    from "2.IH"(2) [OF False wf stem(1)] obtain E W
      where E: "Encode uriUnescaped (replace_all [0x2F] SLASH_PLACEHOLDER rest) = Inr E"
        and W: "Encode (\<lambda>c. uriUnescaped c \<or> c = 0x2F) rest = Inr W"
        and EW: "replace_all SLASH_PLACEHOLDER [0x2F] E = W"
      by blast
    consider "c = 0x2F" | "c \<noteq> 0x2F" "uriUnescaped c" | "c \<noteq> 0x2F" "\<not> uriUnescaped c"
      by blast
    then show ?thesis
    proof cases
      case 1
      have "Encode uriUnescaped (replace_all [0x2F] SLASH_PLACEHOLDER (c # rest)) =
          Inr (SLASH_PLACEHOLDER @ E)"
        using E by (simp add: 1 substitute_simps Encode_placeholder and_then_def del: replace_all.simps)
      moreover have "Encode (\<lambda>c. uriUnescaped c \<or> c = 0x2F) (c # rest) = Inr (c # W)"
        using W by (simp add: 1 and_then_def)
      moreover have "replace_all SLASH_PLACEHOLDER [0x2F] (SLASH_PLACEHOLDER @ E) = c # W"
        using EW by (simp add: restore_placeholder 1)
      ultimately show ?thesis by simp
    next
      case 2
      have e: "Encode uriUnescaped (replace_all [0x2F] SLASH_PLACEHOLDER (c # rest)) =
          Inr (c # E)"
        using E 2 by (simp add: substitute_simps and_then_def del: replace_all.simps)
      have "\<not> (\<exists>t. c # E = SLASH_PLACEHOLDER @ t)"
      proof
        assume "\<exists>t. c # E = SLASH_PLACEHOLDER @ t"
        then obtain t where "c # E = SLASH_PLACEHOLDER @ t" by blast
        from Encode_starts_with [OF e placeholder_unescaped this]
        obtain t' where "replace_all [0x2F] SLASH_PLACEHOLDER (c # rest) = SLASH_PLACEHOLDER @ t'"
          by blast
        with 2(1) have "c # replace_all [0x2F] SLASH_PLACEHOLDER rest = SLASH_PLACEHOLDER @ t'"
          by (simp add: substitute_simps del: replace_all.simps)
        from placeholder_from_stem [OF 2(1) this] stem(2) show False by blast
      qed
      from restore_other [OF this]
      have "replace_all SLASH_PLACEHOLDER [0x2F] (c # E) = c # W"
        using EW by simp
      moreover have "Encode (\<lambda>c. uriUnescaped c \<or> c = 0x2F) (c # rest) = Inr (c # W)"
        using W 2 by (simp add: and_then_def)
      ultimately show ?thesis using e by simp
    next
      case 3
      let ?esc = "percent_escape (unat c)"
      have "\<And>x. x \<in> set ?esc \<Longrightarrow> x \<noteq> 0x5F"
        using percent_escape_units [OF unit_range] by blast
      from restore_no_underscore [OF this]
      have "replace_all SLASH_PLACEHOLDER [0x2F] (?esc @ E) = ?esc @ W"
        using EW by simp
      moreover have "Encode uriUnescaped (replace_all [0x2F] SLASH_PLACEHOLDER (c # rest)) =
          Inr (?esc @ E)"
        using False t 3 E by (simp add: substitute_simps and_then_def del: replace_all.simps)
      moreover have "Encode (\<lambda>c. uriUnescaped c \<or> c = 0x2F) (c # rest) = Inr (?esc @ W)"
        using False t 3 W by (simp add: and_then_def)
      ultimately show ?thesis by simp
    qed
  qed
qed

subsubsection \<open>Decoding\<close>

text \<open>
  \<open>decodeURIComponent\<close> undoes that encoding, and the encoded text has as many \<open>/\<close>
  as the key.
\<close>

lemma decode_encoded:
  assumes "isWellFormed k" and "Encode (\<lambda>c. uriUnescaped c \<or> c = 0x2F) k = Inr W"
  shows "decodeURIComponent W = Inr k \<and> count_list W 0x2F = count_list k 0x2F"
  using assms
proof (induction k arbitrary: W rule: isWellFormed.induct)
  case 1
  then show ?case by simp
next
  case (2 c rest)
  from "2.prems"(2) show ?case
  proof (cases rule: Encode_Cons_cases)
    case (unescaped W')
    then have c: "c \<noteq> 0x25" "\<not> is_leading_surrogate c" "\<not> is_trailing_surrogate c"
      using uriUnescaped_ascii [of c]
      by (auto simp: is_leading_surrogate_def is_trailing_surrogate_def)
    with "2.prems"(1) have "isWellFormed rest" by simp
    from "2.IH"(2) [OF c(2) this unescaped(2)] unescaped(3) c(1)
    show ?thesis by (simp add: and_then_def)
  next
    case (pair d rest' W')
    with "2.prems"(1) have wf: "isWellFormed rest'" by simp
    let ?cp = "UTF16SurrogatePairToCodePoint c d"
    from pair_range [OF pair(2,4)]
    have r: "?cp \<le> 0x10FFFF" "\<not> (0xD800 \<le> ?cp \<and> ?cp \<le> 0xDFFF)" by simp_all
    from pair(2,4) have ne: "c \<noteq> 0x2F" "d \<noteq> 0x2F"
      by (auto simp: is_leading_surrogate_def is_trailing_surrogate_def)
    have "count_list (percent_escape ?cp) 0x2F = 0"
      using percent_escape_units [OF r(1)] by (auto simp: count_list_0_iff)
    with "2.IH"(1) [OF pair(2,3) wf pair(5)] ne
    show ?thesis
      unfolding pair(6) pair(3)
      by (simp add: decode_percent_escape [OF r] UTF16EncodeCodePoint_pair [OF pair(2,4)]
          and_then_def)
  next
    case (single W')
    with "2.prems"(1) have wf: "isWellFormed rest" by simp
    from single(2,3) have r: "\<not> (0xD800 \<le> unat c \<and> unat c \<le> 0xDFFF)"
      by (auto simp: surrogate_unat)
    from single(1) have ne: "c \<noteq> 0x2F" by auto
    have "count_list (percent_escape (unat c)) 0x2F = 0"
      using percent_escape_units [OF unit_range] by (auto simp: count_list_0_iff)
    with "2.IH"(2) [OF single(2) wf single(4)] ne
    show ?thesis
      unfolding single(5)
      by (simp add: decode_percent_escape [OF unit_range r] UTF16EncodeCodePoint_unit and_then_def)
  qed
qed

lemma replace_first_prefix: "replace_first p [] (p @ w) = w"
proof (cases "p @ w")
  case Nil
  then show ?thesis by simp
next
  case (Cons c s)
  have "take (length p) (c # s) = p" "drop (length p) (c # s) = w"
    unfolding Cons [symmetric] by simp_all
  then show ?thesis unfolding Cons by simp
qed

subsubsection \<open>The round trip of a key\<close>

text \<open>
  Claim C2, as amended. For every non-empty key that has no unpaired surrogate, does not
  contain \<open>__SLASH\<close> (the placeholder without its last two underscores), and whose form
  with placeholders the sanitizer leaves unchanged: \<open>formatKey\<close> returns the configured
  prefix followed by the percent-encoding of the key in which every \<open>/\<close> of the key,
  and nothing else, is a literal \<open>/\<close>; and decoding that storage key as \<open>scan\<close> does
  (removing the prefix, then \<open>decodeURIComponent\<close>) gives the key back.
\<close>

theorem formatKey_round_trip:
  assumes "k \<noteq> []" and "isWellFormed k"
    and "\<not> (\<exists>u v. k = u @ js ''__SLASH'' @ v)"
    and "sanitize pf (replace_all (js ''/'') SLASH_PLACEHOLDER k) =
           replace_all (js ''/'') SLASH_PLACEHOLDER k"
  shows "\<exists>w. formatKey cfg pf k = Inr (prefix cfg @ w) \<and>
             Encode (\<lambda>c. uriUnescaped c \<or> c = 0x2F) k = Inr w \<and>
             count_list w 0x2F = count_list k 0x2F \<and>
             originalKey cfg (prefix cfg @ w) = Inr k"
proof -
  from encode_substituted [OF assms(2,3)] obtain E W
    where E: "Encode uriUnescaped (replace_all [0x2F] SLASH_PLACEHOLDER k) = Inr E"
      and W: "Encode (\<lambda>c. uriUnescaped c \<or> c = 0x2F) k = Inr W"
      and EW: "replace_all SLASH_PLACEHOLDER [0x2F] E = W"
    by blast
  have "formatKey cfg pf k = Inr (prefix cfg @ W)"
    using assms(1,4) E EW
    by (simp add: formatKey_def isValidCacheKey_def separator_units encodeURIComponent_placeholder
        encodeURIComponent_def [of "replace_all [0x2F] SLASH_PLACEHOLDER k"])
  moreover have "originalKey cfg (prefix cfg @ W) = Inr k"
    using decode_encoded [OF assms(2) W] by (simp add: originalKey_def replace_first_prefix)
  ultimately show ?thesis
    using W decode_encoded [OF assms(2) W] by blast
qed

text \<open>
  The claim as stated covers every key of sanitizer-safe characters. The key
  \<open>__SLASH__\<close> is one, the sanitizer leaves it unchanged, and it is stored as \<open>/\<close>
  after the prefix, which decodes to the key \<open>/\<close>.
\<close>

theorem formatKey_placeholder_counterexample:
  "formatKey example_config example_platform (js ''__SLASH__'') = Inr (js ''app:/'') \<and>
   originalKey example_config (js ''app:/'') = Inr (js ''/'')"
  by (simp add: formatKey_def isValidCacheKey_def example_config_def example_platform_def
      unchanged_def SLASH_PLACEHOLDER_units js_def codec_defs decode_defs)

theorem formatKey_round_trip_witness:
  "formatKey example_config example_platform (js ''a/b/c'') = Inr (js ''app:a/b/c'') \<and>
   originalKey example_config (js ''app:a/b/c'') = Inr (js ''a/b/c'')"
proof -
  have f: "formatKey example_config example_platform (js ''a/b/c'') = Inr (js ''app:a/b/c'')"
    by (simp add: formatKey_def isValidCacheKey_def example_config_def example_platform_def
        unchanged_def SLASH_PLACEHOLDER_units js_def codec_defs)
  have 1: "js ''a/b/c'' \<noteq> []" by (simp add: js_def)
  have 2: "isWellFormed (js ''a/b/c'')"
    by (simp add: js_def is_leading_surrogate_def is_trailing_surrogate_def)
  have 3: "\<not> (\<exists>u v. js ''a/b/c'' = u @ js ''__SLASH'' @ v)"
  proof
    assume "\<exists>u v. js ''a/b/c'' = u @ js ''__SLASH'' @ v"
    then obtain u v where "js ''a/b/c'' = u @ js ''__SLASH'' @ v" by blast
    then have "length (js ''a/b/c'') = length (u @ js ''__SLASH'' @ v)" by simp
    then show False by (simp add: js_def)
  qed
  have 4: "sanitize example_platform (replace_all (js ''/'') SLASH_PLACEHOLDER (js ''a/b/c'')) =
      replace_all (js ''/'') SLASH_PLACEHOLDER (js ''a/b/c'')"
    by (simp add: example_platform_def unchanged_def)
  from formatKey_round_trip [OF 1 2 3 4, of example_config] obtain w
    where "formatKey example_config example_platform (js ''a/b/c'') =
        Inr (prefix example_config @ w)"
      and o: "originalKey example_config (prefix example_config @ w) = Inr (js ''a/b/c'')"
    by blast
  with f have "prefix example_config @ w = js ''app:a/b/c''" by simp
  with o f show ?thesis by simp
qed

subsection \<open>\<open>set\<close>\<close>

text \<open>
  Claim C1, as amended. \<open>set\<close> checks a supplied TTL before it checks the value: called
  with an undefined value, it reports a TTLError when a TTL is supplied (the third
  argument is neither \<open>undefined\<close> nor a function) and is invalid, and a
  SerializationError otherwise; in both cases once, and without sending a command.
\<close>

theorem set_ttl_checked_before_value:
  "set_op cfg pf client now\<^sub>1 now\<^sub>2 k None ttl =
     \<lparr>sent = [],
      calls = [(Some (if ttl \<noteq> JsUndefined \<and> ttl \<noteq> JsFunction \<and> \<not> isValidTTL ttl
                      then TTLError (js ''TTL must be a positive number or -1 for infinite'')
                      else SerializationError (js ''Value cannot be undefined'') None),
                None)]\<rparr>"
  by (cases ttl) (simp_all add: set_op_def store_entry_def)

text \<open>
  The claim as stated has the value checked first. With an undefined value and the TTL 0
  the callback receives a TTLError, not a SerializationError.
\<close>

theorem set_ttl_checked_first_counterexample:
  "set_op example_config example_platform accepting_client 0 0 (js ''user/42'') None
     (JsNumber (Finite 0)) =
   \<lparr>sent = [],
    calls = [(Some (TTLError (js ''TTL must be a positive number or -1 for infinite'')), None)]\<rparr>"
  by (simp add: set_op_def)

theorem set_ttl_checked_before_value_witness:
  "set_op example_config example_platform accepting_client 0 0 (js ''user/42'') None
     (JsNumber (Finite 5)) =
   \<lparr>sent = [],
    calls = [(Some (SerializationError (js ''Value cannot be undefined'') None), None)]\<rparr>"
  using set_ttl_checked_before_value [of example_config example_platform accepting_client 0 0
      "js ''user/42''" "JsNumber (Finite 5)"]
  by simp

text \<open>
  Claim C4. A supplied TTL (a third argument that is neither \<open>undefined\<close> nor a
  function, which would be the callback) that is not a number, or is a number other than
  \<open>-1\<close> that is not positive (zero, negative, NaN or \<open>-Infinity\<close>), makes \<open>set\<close>
  report a TTLError once and send no command.
\<close>

theorem set_invalid_ttl_rejected:
  assumes "ttl \<noteq> JsUndefined" and "ttl \<noteq> JsFunction"
    and "ttl \<noteq> JsNumber (Finite (- 1))" and "ttl \<noteq> JsNumber PosInfinity"
    and "\<And>r. ttl = JsNumber (Finite r) \<Longrightarrow> r \<le> 0"
  shows "set_op cfg pf client now\<^sub>1 now\<^sub>2 k v ttl =
     \<lparr>sent = [],
      calls = [(Some (TTLError (js ''TTL must be a positive number or -1 for infinite'')), None)]\<rparr>"
proof -
  have "\<not> isValidTTL ttl"
  proof (cases ttl)
    case (JsNumber n)
    with assms show ?thesis by (cases n) auto
  qed simp_all
  with assms(1,2) show ?thesis by (simp add: set_op_def)
qed

theorem set_invalid_ttl_rejected_witness:
  "set_op example_config example_platform accepting_client 0 0 (js ''user/42'')
     (Some (Value ())) (JsNumber (Finite 0)) =
   \<lparr>sent = [],
    calls = [(Some (TTLError (js ''TTL must be a positive number or -1 for infinite'')), None)]\<rparr>"
  using set_invalid_ttl_rejected [of "JsNumber (Finite 0)" example_config example_platform
      accepting_client 0 0 "js ''user/42''" "Some (Value ())"]
  by simp

text \<open>
  Claim C3. When the TTL of a \<open>set\<close> is \<open>-1\<close>, whether supplied or the configured
  default, every write it sends carries exactly the created stamp and the version as
  metadata, and no \<open>cache-ttl\<close> attribute.
\<close>

theorem set_infinite_ttl_metadata:
  assumes "ttl = JsNumber (Finite (- 1)) \<or>
           ((ttl = JsUndefined \<or> ttl = JsFunction) \<and> defaultTtl cfg = Finite (- 1))"
  shows "\<forall>c \<in> set (sent (set_op cfg pf client now\<^sub>1 now\<^sub>2 k v ttl)).
           \<exists>p. c = PutObjectCommand p \<and>
               Metadata p =
                 [(js ''cache-created'', number_toString pf (Finite (of_int now\<^sub>2))),
                  (js ''cache-version'', js ''1.0'')] \<and>
               map_of (Metadata p) (js ''cache-ttl'') = None"
proof -
  have ne: "js ''cache-ttl'' \<noteq> js ''cache-created''" "js ''cache-ttl'' \<noteq> js ''cache-version''"
    by (simp_all add: js_def)
  have "\<forall>c \<in> set (sent (store_entry cfg pf client now\<^sub>1 now\<^sub>2 k v (Finite (- 1)))).
           \<exists>p. c = PutObjectCommand p \<and>
               Metadata p =
                 [(js ''cache-created'', number_toString pf (Finite (of_int now\<^sub>2))),
                  (js ''cache-version'', js ''1.0'')] \<and>
               map_of (Metadata p) (js ''cache-ttl'') = None"
    using ne by (simp add: store_entry_def Let_def split: option.splits sum.splits)
  moreover have "set_op cfg pf client now\<^sub>1 now\<^sub>2 k v ttl =
      store_entry cfg pf client now\<^sub>1 now\<^sub>2 k v (Finite (- 1))"
    using assms by (auto simp: set_op_def)
  ultimately show ?thesis by simp
qed

theorem set_infinite_ttl_metadata_witness:
  "sent (set_op example_config example_platform accepting_client 1000 1001 (js ''user/42'')
           (Some (Value ())) (JsNumber (Finite (- 1)))) =
     [PutObjectCommand
        \<lparr>Bucket = js ''cache-bucket'', Key = js ''app:user/42'', Body = Some (js ''{}''),
         ContentType = js ''application/json'',
         Metadata = [(js ''cache-created'', js ''1001''), (js ''cache-version'', js ''1.0'')],
         StorageClass = None, ServerSideEncryption = None\<rparr>] \<and>
   map_of [(js ''cache-created'', js ''1001''), (js ''cache-version'', js ''1.0'')]
     (js ''cache-ttl'') = None"
proof -
  have s: "sent (set_op example_config example_platform accepting_client 1000 1001 (js ''user/42'')
           (Some (Value ())) (JsNumber (Finite (- 1)))) =
     [PutObjectCommand
        \<lparr>Bucket = js ''cache-bucket'', Key = js ''app:user/42'', Body = Some (js ''{}''),
         ContentType = js ''application/json'',
         Metadata = [(js ''cache-created'', js ''1001''), (js ''cache-version'', js ''1.0'')],
         StorageClass = None, ServerSideEncryption = None\<rparr>]"
    by (simp add: set_op_def store_entry_def formatKey_example Let_def)
       (simp add: example_config_def example_platform_def example_stringify_def truthy_def
          accepting_client_def example_toString_def decimal.simps js_def)
  from set_infinite_ttl_metadata [of "JsNumber (Finite (- 1))" example_config example_platform
      accepting_client 1000 1001 "js ''user/42''" "Some (Value ())"]
  show ?thesis unfolding s by (simp add: js_def)
qed

subsection \<open>\<open>get\<close>\<close>

text \<open>
  Claim C5. When the read of \<open>get\<close> is rejected, the callback is invoked once: with
  \<open>(null, null)\<close> if the error is named \<open>NoSuchKey\<close> or has the status code 404, and
  otherwise with an S3OperationError that carries the error's status code, if it has one,
  and the error itself.
\<close>

theorem get_read_failure:
  assumes "formatKey cfg pf k = Inr s3Key"
    and "client 0 (GetObjectCommand (bucket cfg) s3Key) = Inl error"
  shows "get cfg pf client now k =
     \<lparr>sent = [GetObjectCommand (bucket cfg) s3Key],
      calls = [if name error = Some (js ''NoSuchKey'') \<or> httpStatusCode error = Some 404
               then (None, Some Null)
               else (Some (S3OperationError (js ''Failed to retrieve cache entry'')
                             (httpStatusCode error) (Some error)), None)]\<rparr>"
  using assms by (simp add: get_def Let_def)

theorem get_read_failure_witness:
  "get example_config example_platform (rejecting_client NoSuchKey) 0 (js ''user/42'') =
     \<lparr>sent = [GetObjectCommand (js ''cache-bucket'') (js ''app:user/42'')],
      calls = [(None, Some Null)]\<rparr> \<and>
   get example_config example_platform (rejecting_client AccessDenied) 0 (js ''user/42'') =
     \<lparr>sent = [GetObjectCommand (js ''cache-bucket'') (js ''app:user/42'')],
      calls = [(Some (S3OperationError (js ''Failed to retrieve cache entry'') (Some 403)
                        (Some AccessDenied)), None)]\<rparr>"
  using get_read_failure [OF formatKey_example, of "rejecting_client NoSuchKey" NoSuchKey 0]
    get_read_failure [OF formatKey_example, of "rejecting_client AccessDenied" AccessDenied 0]
  by (simp add: rejecting_client_def)
     (simp add: NoSuchKey_def AccessDenied_def example_config_def js_def)

lemma del_calls_once:
  "formatKey cfg pf k = Inr s3Key \<Longrightarrow>
   sent (del cfg pf client k) = [DeleteObjectCommand (bucket cfg) s3Key] \<and>
   length (calls (del cfg pf client k)) = 1"
  by (simp add: del_def Let_def split: sum.splits)

text \<open>
  Claim C6. When \<open>get\<close> reads an entry whose \<open>cache-ttl\<close> attribute parses to a
  time before now, it sends a delete for the same storage key after the read and invokes
  the callback once with \<open>(null, null)\<close>, whatever the delete's outcome; the stored
  value is not returned.
\<close>

theorem get_expired_entry:
  assumes "formatKey cfg pf k = Inr s3Key"
    and "client 0 (GetObjectCommand (bucket cfg) s3Key) = Inr result"
    and "out_Metadata result = Some metadata"
    and "metadata (js ''cache-ttl'') = Some ttl"
    and "parseInt ttl = Some expirationTime"
    and "expirationTime < now"
  shows "get cfg pf client now k =
     \<lparr>sent = [GetObjectCommand (bucket cfg) s3Key, DeleteObjectCommand (bucket cfg) s3Key],
      calls = [(None, Some Null)]\<rparr>"
proof -
  from assms(5) have "ttl \<noteq> []" using parseInt_Nil by auto
  with assms(4,5,6) have "isExpired now metadata"
    by (simp add: isExpired_def truthy_def)
  moreover have "sent (del cfg pf (\<lambda>n. client (Suc n)) k) = [DeleteObjectCommand (bucket cfg) s3Key]"
    and "length (calls (del cfg pf (\<lambda>n. client (Suc n)) k)) = 1"
    using del_calls_once [OF assms(1)] by auto
  moreover from this(2) obtain c where "calls (del cfg pf (\<lambda>n. client (Suc n)) k) = [c]"
    by (cases "calls (del cfg pf (\<lambda>n. client (Suc n)) k)") auto
  ultimately show ?thesis using assms(1,2,3) by (simp add: get_def Let_def)
qed

theorem get_expired_entry_witness:
  "get example_config example_platform
     (entry_client [(js ''cache-ttl'', js ''1000'')] (js ''{}'')) 2000 (js ''user/42'') =
   \<lparr>sent = [GetObjectCommand (js ''cache-bucket'') (js ''app:user/42''),
            DeleteObjectCommand (js ''cache-bucket'') (js ''app:user/42'')],
    calls = [(None, Some Null)]\<rparr>"
  using get_expired_entry [OF formatKey_example,
      of "entry_client [(js ''cache-ttl'', js ''1000'')] (js ''{}'')" _ _ "js ''1000''" 1000 2000]
  by (simp add: entry_client_def parseInt_example) (simp add: example_config_def)

text \<open>
  Claim C10. When the response has no metadata, or its \<open>cache-ttl\<close> attribute is
  absent, empty or does not parse as a number, \<open>get\<close> serves the entry at every time
  \<open>now\<close>: it sends the read only and passes the parsed body to the callback.
\<close>

theorem get_without_expiry:
  assumes "formatKey cfg pf k = Inr s3Key"
    and "client 0 (GetObjectCommand (bucket cfg) s3Key) = Inr result"
    and "\<And>metadata ttl. out_Metadata result = Some metadata \<Longrightarrow>
           metadata (js ''cache-ttl'') = Some ttl \<Longrightarrow> ttl = [] \<or> parseInt ttl = None"
    and "out_Body result = Readable (StreamEnd (Inr bodyText))"
    and "JSON_parse pf bodyText = Inr v"
  shows "get cfg pf client now k =
     \<lparr>sent = [GetObjectCommand (bucket cfg) s3Key], calls = [(None, Some v)]\<rparr>"
proof -
  have "\<not> isExpired now metadata" if "out_Metadata result = Some metadata" for metadata
    using assms(3) [OF that] 
    by (cases "metadata (js ''cache-ttl'')") (auto simp: isExpired_def truthy_def)
  then show ?thesis using assms(1,2,4,5)
    by (simp add: get_def Let_def split: option.splits)
qed

theorem get_without_expiry_witness:
  "get example_config example_platform
     (entry_client [(js ''cache-ttl'', js ''soon'')] (js ''{}'')) 2000 (js ''user/42'') =
   \<lparr>sent = [GetObjectCommand (js ''cache-bucket'') (js ''app:user/42'')],
    calls = [(None, Some (Value ()))]\<rparr>"
proof -
  have p: "parseInt (js ''soon'') = None"
    by (simp add: parseInt_def js_def StrWhiteSpaceChar_def is_digit_def)
  have e: "JSON_parse example_platform (js ''{}'') = Inr (Value ())"
    by (simp add: example_platform_def example_parse_def js_def)
  let ?result = "\<lparr>out_Metadata = Some (map_of [(js ''cache-ttl'', js ''soon'')]),
      out_Body = Readable (StreamEnd (Inr (js ''{}''))), out_Contents = None,
      out_IsTruncated = False, out_NextContinuationToken = None\<rparr>"
  have r: "entry_client [(js ''cache-ttl'', js ''soon'')] (js ''{}'') 0
      (GetObjectCommand (bucket example_config) (js ''app:user/42'')) = Inr ?result"
    by (simp add: entry_client_def)
  have t: "ttl = [] \<or> parseInt ttl = None"
    if "out_Metadata ?result = Some metadata" "metadata (js ''cache-ttl'') = Some ttl"
    for metadata ttl
    using that p by auto
  have b: "out_Body ?result = Readable (StreamEnd (Inr (js ''{}'')))"
    by simp
  show ?thesis
    using get_without_expiry [where cfg = example_config and pf = example_platform
        and client = "entry_client [(js ''cache-ttl'', js ''soon'')] (js ''{}'')"
        and result = ?result and now = 2000, OF formatKey_example r t b e]
    by (simp add: example_config_def)
qed

subsection \<open>\<open>healthCheck\<close>\<close>



subsection \<open>\<open>clear\<close>\<close>










text \<open>
  The listing does not end when every page is truncated: no callback is then invoked.
\<close>

lemma listBatch_endless:
  assumes "\<And>i c. case client i c of Inl error \<Rightarrow> False | Inr result \<Rightarrow> out_IsTruncated result"
  shows "listBatch cfg client issued objects continuationToken = None"
proof (cases "listBatch cfg client issued objects continuationToken")
  case None
  then show ?thesis .
next
  case (Some r)
  have "\<not> (\<forall>i c. case client i c of Inl error \<Rightarrow> False | Inr result \<Rightarrow> out_IsTruncated result)"
  proof (rule listBatch.raw_induct
      [where P = "\<lambda>cfg client issued objects continuationToken r.
         \<not> (\<forall>i c. case client i c of Inl error \<Rightarrow> False | Inr result \<Rightarrow> out_IsTruncated result)",
       OF _ Some])
    fix f :: "config \<Rightarrow> s3_client \<Rightarrow> command list \<Rightarrow> js_string list \<Rightarrow> js_string option \<Rightarrow>
        (command list \<times> (store_error + js_string list)) option"
      and cfg :: config and client :: s3_client and issued :: "command list"
      and objects :: "js_string list" and continuationToken :: "js_string option"
      and r :: "command list \<times> (store_error + js_string list)"
    let ?c = "ListObjectsV2Command (bucket cfg) (prefix cfg) None
                (if truthy continuationToken then continuationToken else None)"
    assume IH: "\<And>cfg client issued objects continuationToken r.
        f cfg client issued objects continuationToken = Some r \<Longrightarrow>
        \<not> (\<forall>i c. case client i c of Inl error \<Rightarrow> False | Inr result \<Rightarrow> out_IsTruncated result)"
      and step: "(case client (length issued) ?c of
          Inl error \<Rightarrow>
            Some (issued @ [?c],
                  Inl (S3OperationError (js ''Failed to list objects'')
                         (httpStatusCode error) (Some error)))
        | Inr result \<Rightarrow>
            if out_IsTruncated result
            then f cfg client (issued @ [?c])
                   (objects @
                      (case out_Contents result of
                         None \<Rightarrow> []
                       | Some contents \<Rightarrow>
                           filter (\<lambda>K. K \<noteq> [])
                             (map (\<lambda>obj. case obj of None \<Rightarrow> [] | Some K \<Rightarrow> K) contents)))
                   (out_NextContinuationToken result)
            else
              Some (issued @ [?c],
                    Inr (objects @
                           (case out_Contents result of
                              None \<Rightarrow> []
                            | Some contents \<Rightarrow>
                                filter (\<lambda>K. K \<noteq> [])
                                  (map (\<lambda>obj. case obj of None \<Rightarrow> [] | Some K \<Rightarrow> K)
                                     contents))))) = Some r"
    show "\<not> (\<forall>i c. case client i c of Inl error \<Rightarrow> False | Inr result \<Rightarrow> out_IsTruncated result)"
    proof
      assume a: "\<forall>i c. case client i c of Inl error \<Rightarrow> False | Inr result \<Rightarrow> out_IsTruncated result"
      then have "case client (length issued) ?c of
                   Inl error \<Rightarrow> False | Inr result \<Rightarrow> out_IsTruncated result"
        by blast
      then obtain result where r: "client (length issued) ?c = Inr result" "out_IsTruncated result"
        by (cases "client (length issued) ?c") auto
      from step [unfolded r sum.case] r(2) have "\<exists>objects' token.
          f cfg client (issued @ [?c]) objects' token = Some r"
        by (simp only: if_True) blast
      with IH a show False by blast
    qed
  qed
  with assms show ?thesis by blast
qed






text \<open>
  With keys or without, a store whose listing pages are all truncated is asked for page
  after page, and the callback is never invoked.
\<close>

lemma clear_endless_listing:
  "clear example_config truncated_client callback order = None"
proof -
  have "listBatch example_config truncated_client [] [] None = None"
    by (rule listBatch_endless) (simp add: truncated_client_def)
  then show ?thesis
    by (simp add: clear_def listAllObjects_def)
qed

text \<open>
  The same callback with a store that lists no key: the handler of the last page
  reports success, the callback throws, and the \<open>.catch\<close> chained to that handler
  reports what it threw as a failure of the listing.
\<close>

lemma clear_empty_listing_callback_twice:
  "clear example_config accepting_client throwing_callback order =
     Some \<lparr>sent = [ListObjectsV2Command (js ''cache-bucket'') (js ''app:'') None None],
           calls = [(None, None),
                    (Some (S3OperationError (js ''Failed to list objects'') None (Some TypeError)),
                     None)]\<rparr>"
proof -
  have l: "listBatch example_config accepting_client [] [] None =
      Some ([ListObjectsV2Command (js ''cache-bucket'') (js ''app:'') None None], Inr [])"
    by (subst listBatch.simps)
      (simp add: accepting_client_def empty_output_def truthy_def example_config_def)
  show ?thesis
    by (simp add: clear_def listAllObjects_def l clear_listed_def throwing_callback_def
        TypeError_def)
qed

subsection \<open>\<open>scan\<close>\<close>

text \<open>
  \<open>get\<close> invokes its callback exactly once.
\<close>

lemma get_calls_once: "\<exists>c. calls (get cfg pf client now k) = [c]"
proof (cases "formatKey cfg pf k")
  case (Inl e)
  then show ?thesis by (simp add: get_def)
next
  case (Inr s3Key)
  from del_calls_once [OF Inr, of "\<lambda>n. client (Suc n)"]
  obtain d where "calls (del cfg pf (\<lambda>n. client (Suc n)) k) = [d]"
    by (cases "calls (del cfg pf (\<lambda>n. client (Suc n)) k)") auto
  with Inr show ?thesis
    by (simp add: get_def Let_def split: sum.splits body.splits)
qed

text \<open>
  The loop of \<open>scan\<close> when every key decodes: it invokes the callback only if no
  object has a key, at the last object.
\<close>

lemma scan_forEach_all_decoded:
  assumes "map (originalKey cfg) [K. Some K \<leftarrow> objs, K \<noteq> []] = map Inr ks"
    and "p + length (filter (\<lambda>obj. \<not> truthy obj) objs) \<le> n"
  shows "scan_forEach cfg n cur objs (p, r, keys) =
     (None, p + length (filter (\<lambda>obj. \<not> truthy obj) objs),
      (if 0 < length (filter (\<lambda>obj. \<not> truthy obj) objs) \<and>
          p + length (filter (\<lambda>obj. \<not> truthy obj) objs) = n
       then r @ [(None, Some \<lparr>cursor = cur, entries = []\<rparr>)] else r),
      keys @ ks)"
  using assms
proof (induction objs arbitrary: p r keys ks)
  case Nil
  then show ?case by simp
next
  case (Cons obj objs)
  show ?case
  proof (cases "truthy obj")
    case False
    then have c: "obj = None \<or> obj = Some []"
      by (auto simp: truthy_def split: option.splits)
    from Cons.prems c have d: "map (originalKey cfg) [K. Some K \<leftarrow> objs, K \<noteq> []] = map Inr ks"
      by auto
    from Cons.prems(2) False
    have le: "Suc p + length (filter (\<lambda>obj. \<not> truthy obj) objs) \<le> n" by simp
    show ?thesis
      using False le Cons.IH [OF d le] by auto
  next
    case True
    then obtain K where K: "obj = Some K" "K \<noteq> []"
      by (auto simp: truthy_def split: option.splits)
    with Cons.prems(1) obtain k ks' where ks: "ks = k # ks'" "originalKey cfg K = Inr k"
      and d: "map (originalKey cfg) [K. Some K \<leftarrow> objs, K \<noteq> []] = map Inr ks'"
      by (cases ks) auto
    from Cons.prems(2) True
    have le: "p + length (filter (\<lambda>obj. \<not> truthy obj) objs) \<le> n" by simp
    show ?thesis
      using True K ks Cons.IH [OF d le, of r "keys @ [k]"] by simp
  qed
qed

text \<open>
  The completions of the lookups: the callback is invoked when the last of the listed
  objects has been processed.
\<close>

lemma fold_lookups:
  fixes g :: "nat \<Rightarrow> (store_error option \<times> 'v js_value option) list"
  assumes "\<And>j. \<exists>c. g j = [c]"
    and "\<And>j. j \<in> set order \<Longrightarrow> j < length keys"
    and "p + length order \<le> n"
  shows "fold (\<lambda>j st. if j < length keys then fold (lookup_done n cur (keys ! j)) (g j) st else st)
           order (p, es, r) =
     (p + length order,
      es @ concat (map (\<lambda>j. [(keys ! j, v). (None, Some (Value v)) \<leftarrow> g j]) order),
      (if order \<noteq> [] \<and> p + length order = n
       then r @ [(None, Some \<lparr>cursor = cur,
                   entries = es @ concat (map (\<lambda>j. [(keys ! j, v). (None, Some (Value v)) \<leftarrow> g j]) order)\<rparr>)]
       else r))"
  using assms(2,3)
proof (induction order arbitrary: p es r)
  case Nil
  show ?case by simp
next
  case (Cons j order)
  from assms(1) [of j] obtain e d where g: "g j = [(e, d)]" by (cases "g j") auto
  from Cons.prems(1) have j: "j < length keys" by simp
  let ?contribution = "[(keys ! j, v). (None, Some (Value v)) \<leftarrow> g j]"
  have step: "lookup_done n cur (keys ! j) (e, d) (p, es, r) =
      (Suc p, es @ ?contribution,
       (if Suc p = n then r @ [(None, Some \<lparr>cursor = cur, entries = es @ ?contribution\<rparr>)] else r))"
    unfolding g by (cases e; cases d rule: isDefined.cases) (simp_all add: Let_def)
  show ?case
  proof (cases "Suc p = n")
    case True
    with Cons.prems(2) have "order = []" by (cases order) auto
    with True j g step show ?thesis by simp
  next
    case False
    from Cons.prems have "Suc p + length order \<le> n" by simp
    from Cons.IH [OF _ this, of "es @ ?contribution" r] Cons.prems(1)
    show ?thesis using False j g step by auto
  qed
qed

lemma listed_keys_length:
  "length (filter (\<lambda>obj. \<not> truthy obj) objs) + length [K. Some K \<leftarrow> objs, K \<noteq> []] = length objs"
  by (induction objs) (auto simp: truthy_def split: option.splits)

text \<open>
  Claim C9, as amended. When the listing of \<open>scan\<close> succeeds and the key of every
  listed object decodes, \<open>scan\<close> looks every decoded key up with \<open>get\<close>, and when
  each lookup completes once, in any order, the callback is invoked exactly once, with
  \<open>null\<close> as the error: its entries are, in the order of completion, the keys whose
  lookup reported no error and a value other than \<open>null\<close>; a lookup that reported an
  error or a miss leaves no entry and no error.
\<close>

theorem scan_omits_failed_lookups:
  assumes "scan_prefix cfg pf (fst (scan_arguments pattern limit callback)) = Inr listPrefix"
    and "client 0 (ListObjectsV2Command (bucket cfg) listPrefix
           (Some (snd (scan_arguments pattern limit callback))) None) = Inr result"
    and "objects = (case out_Contents result of None \<Rightarrow> [] | Some contents \<Rightarrow> contents)"
    and "map (originalKey cfg) [K. Some K \<leftarrow> objects, K \<noteq> []] = map Inr keys"
    and "distinct order \<and> set order = {..<length keys}"
  shows "scan cfg pf client lookups order pattern limit callback =
     \<lparr>sent = [ListObjectsV2Command (bucket cfg) listPrefix
                (Some (snd (scan_arguments pattern limit callback))) None],
      calls =
        [(None,
          Some \<lparr>cursor =
                  (if objects = [] \<or> \<not> out_IsTruncated result then CursorNumber 0
                   else (case out_NextContinuationToken result of
                           Some token \<Rightarrow> CursorToken token
                         | None \<Rightarrow> CursorNumber 1)),
                entries =
                  concat (map (\<lambda>j. [(keys ! j, v).
                                       (None, Some (Value v)) \<leftarrow>
                                         calls (get cfg pf (fst (lookups j)) (snd (lookups j))
                                                  (keys ! j))])
                            order)\<rparr>)],
      looked_up = keys, thrown = None\<rparr>"
proof (cases "objects = []")
  case True
  with assms(4) have "keys = []" by simp
  with assms(5) have "order = []" by simp
  moreover from True assms(3)
  have "(case out_Contents result of None \<Rightarrow> [] | Some contents \<Rightarrow> contents) = []"
    by simp
  ultimately show ?thesis
    using True \<open>keys = []\<close> assms(1,2) by (simp add: scan_def Let_def)
next
  case False
  define n where "n = length objects"
  define cur where "cur = (if out_IsTruncated result
                                  then (case out_NextContinuationToken result of
                                          Some token \<Rightarrow> CursorToken token
                                        | None \<Rightarrow> CursorNumber 1)
                                  else CursorNumber 0)"
  define k where "k = length (filter (\<lambda>obj. \<not> truthy obj) objects)"
  define g where "g = (\<lambda>j. calls (get cfg pf (fst (lookups j)) (snd (lookups j)) (keys ! j)))"
  have len_keys: "length keys = length [K. Some K \<leftarrow> objects, K \<noteq> []]"
    using arg_cong [OF assms(4), of length] by simp
  with listed_keys_length [of objects] have kn: "k + length keys = n"
    by (simp add: k_def n_def)
  from assms(5) have len_order: "length order = length keys"
    using distinct_card [of order] by simp
  have g1: "\<exists>c. g j = [c]" for j
    unfolding g_def by (rule get_calls_once)
  have sync: "scan_forEach cfg n cur objects (0, [], []) =
      (None, k, (if 0 < k \<and> k = n then [(None, Some \<lparr>cursor = cur, entries = []\<rparr>)] else []), keys)"
    using scan_forEach_all_decoded [OF assms(4), of 0 n cur "[]" "[]"] kn
    by (auto simp: k_def)
  have async: "fold (\<lambda>j st. if j < length keys then fold (lookup_done n cur (keys ! j)) (g j) st else st)
           order (k, [], r) =
     (k + length order,
      [] @ concat (map (\<lambda>j. [(keys ! j, v). (None, Some (Value v)) \<leftarrow> g j]) order),
      (if order \<noteq> [] \<and> k + length order = n
       then r @ [(None, Some \<lparr>cursor = cur,
                   entries = [] @ concat (map (\<lambda>j. [(keys ! j, v). (None, Some (Value v)) \<leftarrow> g j]) order)\<rparr>)]
       else r))" for r :: "'a scan_calls"
    using assms(5) kn len_order
    by (intro fold_lookups g1) auto
  have final: "snd (snd (fold (\<lambda>j st. if j < length keys then fold (lookup_done n cur (keys ! j)) (g j) st else st)
           order (k, [], (if 0 < k \<and> k = n then [(None, Some \<lparr>cursor = cur, entries = []\<rparr>)] else [])))) =
      [(None, Some \<lparr>cursor = cur,
                   entries = concat (map (\<lambda>j. [(keys ! j, v). (None, Some (Value v)) \<leftarrow> g j]) order)\<rparr>)]"
  proof (cases "keys = []")
    case True
    with len_order have "order = []" by simp
    moreover from True kn False have "0 < k \<and> k = n" by (simp add: n_def)
    ultimately show ?thesis by simp
  next
    case False
    with len_order have "order \<noteq> []" by auto
    moreover from False kn have "\<not> (0 < k \<and> k = n)" by auto
    ultimately show ?thesis using kn len_order by (simp add: async)
  qed
  have eq: "scan cfg pf client lookups order pattern limit callback =
      (case scan_forEach cfg n cur objects (0, [], []) of
         (failure, processed, reported, ks) \<Rightarrow>
           \<lparr>sent = [ListObjectsV2Command (bucket cfg) listPrefix
                      (Some (snd (scan_arguments pattern limit callback))) None],
            calls = snd (snd (fold (\<lambda>j st. if j < length ks
                                     then fold (lookup_done n cur (ks ! j))
                                            (calls (get cfg pf (fst (lookups j)) (snd (lookups j))
                                                      (ks ! j))) st
                                     else st)
                                order
                                (processed, [],
                                 (case failure of
                                    None \<Rightarrow> reported
                                  | Some e \<Rightarrow>
                                      reported @
                                      [(Some (S3OperationError (js ''Failed to scan cache entries'')
                                                (httpStatusCode e) (Some e)), None)])))),
            looked_up = ks, thrown = None\<rparr>)"
    unfolding scan_def Let_def n_def cur_def assms(3)
    using False [unfolded assms(3)] assms(1,2) by simp
  have cur_eq: "cur = (if objects = [] \<or> \<not> out_IsTruncated result then CursorNumber 0
                   else (case out_NextContinuationToken result of
                           Some token \<Rightarrow> CursorToken token
                         | None \<Rightarrow> CursorNumber 1))"
    using False by (simp add: cur_def)
  have "scan cfg pf client lookups order pattern limit callback =
     \<lparr>sent = [ListObjectsV2Command (bucket cfg) listPrefix
                (Some (snd (scan_arguments pattern limit callback))) None],
      calls =
        [(None,
          Some \<lparr>cursor = cur,
                entries =
                  concat (map (\<lambda>j. [(keys ! j, v).
                                       (None, Some (Value v)) \<leftarrow>
                                         calls (get cfg pf (fst (lookups j)) (snd (lookups j))
                                                  (keys ! j))])
                            order)\<rparr>)],
      looked_up = keys, thrown = None\<rparr>"
    unfolding eq sync prod.case option.case final [unfolded g_def] ..
  then show ?thesis by (simp only: cur_eq)
qed

lemma get_examples:
  "calls (get example_config example_platform (entry_client [] (js ''{}'')) 2000 (js ''user/42'')) =
     [(None, Some (Value ()))]"
  "calls (get example_config example_platform (rejecting_client AccessDenied) 2000 (js ''gone'')) =
     [(Some (S3OperationError (js ''Failed to retrieve cache entry'') (Some 403)
               (Some AccessDenied)), None)]"
proof -
  have e: "JSON_parse example_platform (js ''{}'') = Inr (Value ())"
    by (simp add: example_platform_def example_parse_def js_def)
  show "calls (get example_config example_platform (entry_client [] (js ''{}'')) 2000
           (js ''user/42'')) = [(None, Some (Value ()))]"
    by (simp add: get_def formatKey_example Let_def entry_client_def isExpired_def e)
  have "name AccessDenied \<noteq> Some (js ''NoSuchKey'')" "httpStatusCode AccessDenied = Some 403"
    by (simp_all add: AccessDenied_def js_def)
  then show "calls (get example_config example_platform (rejecting_client AccessDenied) 2000
           (js ''gone'')) =
     [(Some (S3OperationError (js ''Failed to retrieve cache entry'') (Some 403)
               (Some AccessDenied)), None)]"
    by (simp add: get_def formatKey_example_gone Let_def rejecting_client_def)
qed

text \<open>
  The claim as stated covers every listing. A listed key that is not a well-formed
  percent-encoding (here \<open>app:%\<close>, beside a key that is) makes \<open>decodeURIComponent\<close>
  throw inside the handler of the listing: \<open>scan\<close> reports an S3OperationError, and the
  entry of the other key is not reported.
\<close>

theorem scan_decoding_failure_counterexample:
  "scan example_config example_platform
     (listing_client [Some (js ''app:user/42''), Some (js ''app:%'')]) example_lookups [0]
     Callback Missing False =
   \<lparr>sent = [ListObjectsV2Command (js ''cache-bucket'') (js ''app:'') (Some (Finite 100)) None],
    calls = [(Some (S3OperationError (js ''Failed to scan cache entries'') None (Some URIError)),
              None)],
    looked_up = [js ''user/42''], thrown = None\<rparr>"
proof -
  have u: "httpStatusCode URIError = None" by (simp add: URIError_def)
  have t: "truthy (Some (js ''app:user/42''))" "truthy (Some (js ''app:%''))"
    by (simp_all add: truthy_def js_def)
  have c: "listing_client [Some (js ''app:user/42''), Some (js ''app:%'')] 0
      (ListObjectsV2Command (bucket example_config) (prefix example_config) (Some (Finite 100)) None) =
      Inr \<lparr>out_Metadata = None, out_Body = NotReadable,
           out_Contents = Some [Some (js ''app:user/42''), Some (js ''app:%'')],
           out_IsTruncated = False, out_NextContinuationToken = None\<rparr>"
    by (simp add: listing_client_def)
  show ?thesis
    by (simp add: scan_def scan_arguments_def scan_prefix_def c Let_def t originalKey_examples u
        example_lookups_def get_examples)
       (simp add: example_config_def)
qed

theorem scan_omits_failed_lookups_witness:
  "scan example_config example_platform
     (listing_client [Some (js ''app:user/42''), None, Some (js ''app:gone'')]) example_lookups
     [1, 0] Callback Missing False =
   \<lparr>sent = [ListObjectsV2Command (js ''cache-bucket'') (js ''app:'') (Some (Finite 100)) None],
    calls = [(None, Some \<lparr>cursor = CursorNumber 0, entries = [(js ''user/42'', ())]\<rparr>)],
    looked_up = [js ''user/42'', js ''gone''], thrown = None\<rparr>"
proof -
  let ?objects = "[Some (js ''app:user/42''), None, Some (js ''app:gone'')]"
  let ?result = "\<lparr>out_Metadata = None, out_Body = NotReadable, out_Contents = Some ?objects,
           out_IsTruncated = False, out_NextContinuationToken = None\<rparr>"
  have a: "scan_arguments Callback Missing False = ([], Finite 100)"
    by (simp add: scan_arguments_def)
  have p: "scan_prefix example_config example_platform
      (fst (scan_arguments Callback Missing False)) = Inr (js ''app:'')"
    by (simp add: a scan_prefix_def example_config_def)
  have c: "listing_client ?objects 0
      (ListObjectsV2Command (bucket example_config) (js ''app:'')
         (Some (snd (scan_arguments Callback Missing False))) None) = Inr ?result"
    by (simp add: listing_client_def)
  have o: "?objects = (case out_Contents ?result of None \<Rightarrow> [] | Some contents \<Rightarrow> contents)"
    by simp
  have ne: "js ''app:user/42'' \<noteq> []" "js ''app:gone'' \<noteq> []"
    by (simp_all add: js_def)
  have k: "map (originalKey example_config) [K. Some K \<leftarrow> ?objects, K \<noteq> []] =
      map Inr [js ''user/42'', js ''gone'']"
    by (simp add: ne originalKey_examples)
  have d: "distinct [1, 0::nat] \<and> set [1, 0::nat] = {..<length [js ''user/42'', js ''gone'']}"
    by auto
  show ?thesis
    using scan_omits_failed_lookups [where cfg = example_config and pf = example_platform
        and client = "listing_client ?objects" and result = ?result and lookups = example_lookups,
        OF p c o k d]
    by (simp add: a example_lookups_def get_examples) (simp add: example_config_def)
qed

end
